theory Spec2Isabelle
  imports Main "HOL-Library.Char_ord" "HOL-Library.List_Lexorder"
begin

section \<open>Python values used by the loader\<close>

text \<open>
  The exceptions that \<^verbatim>\<open>models.py\<close> and \<^verbatim>\<open>load.py\<close> can raise. The specification's
  names for them are \<open>ConfigurationError\<close> (\<open>ValueError\<close> raised by the sync methods),
  \<open>MissingCrosswalkEntry\<close> (\<open>KeyError\<close> of the dictionary lookup),
  \<open>UnresolvedLineReference\<close> (\<open>DoesNotExist\<close> of \<^verbatim>\<open>Line.objects.get\<close>) and
  \<open>ConsolidationFailure\<close> (whatever the union aggregate raises). \<open>TypeError\<close> is what
  a geometry field raises when it is given a geometry object of another kind than its own.
\<close>

datatype error =
    ValueError
  | AttributeError
  | KeyError
  | IndexError
  | TypeError
  | OGRException
  | DoesNotExist
  | MultipleObjectsReturned
  | IntegrityError
  | DatabaseError

text \<open>
  A method that mutates its object either returns, giving the object as it is afterwards, or
  raises, giving the exception together with the object as the exception left it.
\<close>

type_synonym 'a outcome = "(error \<times> 'a) + 'a"

subsection \<open>\<^verbatim>\<open>str\<close>, \<^verbatim>\<open>int\<close>, \<^verbatim>\<open>startswith\<close> and \<^verbatim>\<open>split\<close>\<close>

definition digit_char :: "nat \<Rightarrow> char" where
  "digit_char d = ''0123456789'' ! d"

fun str_nat :: "nat \<Rightarrow> string" where
  "str_nat n = (if n < 10 then [digit_char n] else str_nat (n div 10) @ [digit_char (n mod 10)])"

declare str_nat.simps [simp del]

text \<open>\<^verbatim>\<open>str(i)\<close> of a Python integer: decimal digits, with a minus sign below zero.\<close>

definition str_int :: "int \<Rightarrow> string" where
  "str_int i = (if i < 0 then CHR ''-'' # str_nat (nat (- i)) else str_nat (nat i))"

text \<open>\<^verbatim>\<open>str(stop.stop_id)\<close>: the field is nullable, and \<^verbatim>\<open>str(None)\<close> is \<^verbatim>\<open>'None'\<close>.\<close>

definition str_int_option :: "int option \<Rightarrow> string" where
  "str_int_option v = (case v of None \<Rightarrow> ''None'' | Some i \<Rightarrow> str_int i)"

definition startswith :: "string \<Rightarrow> string \<Rightarrow> bool" where
  "startswith s p = (take (length p) s = p)"

fun split_acc :: "char \<Rightarrow> string \<Rightarrow> string \<Rightarrow> string list" where
  "split_acc sep cur [] = [rev cur]"
| "split_acc sep cur (c # cs) =
     (if c = sep then rev cur # split_acc sep [] cs else split_acc sep (c # cur) cs)"

definition split_str :: "string \<Rightarrow> char \<Rightarrow> string list" where
  "split_str s sep = split_acc sep [] s"

definition digit_val :: "char \<Rightarrow> int" where
  "digit_val c = int (of_char c) - 48"

text \<open>\<^verbatim>\<open>int(s)\<close> on a string of decimal digits, the only strings it is applied to here.\<close>

definition int_str :: "string \<Rightarrow> int" where
  "int_str s = foldl (\<lambda>acc c. 10 * acc + digit_val c) 0 s"

section \<open>Geometries\<close>

text \<open>
  Geometries by kind, over coordinates of any type \<open>'c\<close>. \<open>geom_type\<close> is the attribute
  of the same name; \<open>bool_geom\<close> is Python's truth value of a geometry object, which is
  that of its \<^verbatim>\<open>__len__\<close>: a collection with no parts and a line with no points are false.
\<close>

datatype 'c geom =
    Point 'c
  | LineString "'c list"
  | MultiLineString "'c list list"

fun geom_type :: "'c geom \<Rightarrow> string" where
  "geom_type (Point p) = ''Point''"
| "geom_type (LineString cs) = ''LineString''"
| "geom_type (MultiLineString ps) = ''MultiLineString''"

fun bool_geom :: "'c geom \<Rightarrow> bool" where
  "bool_geom (Point p) = True"
| "bool_geom (LineString cs) = (cs \<noteq> [])"
| "bool_geom (MultiLineString ps) = (ps \<noteq> [])"

text \<open>\<^verbatim>\<open>not source\<close> on a nullable geometry field.\<close>

definition not_source :: "'c geom option \<Rightarrow> bool" where
  "not_source source = (case source of None \<Rightarrow> True | Some g \<Rightarrow> \<not> bool_geom g)"

text \<open>
  \<^verbatim>\<open>ml.add(simple.wkt)\<close>: the text is parsed and the geometry appended to the collection.
  A multi-part line accepts only single lines as parts; the library raises otherwise.
\<close>

fun add :: "'c geom \<Rightarrow> 'c geom \<Rightarrow> error + 'c geom" where
  "add (MultiLineString ps) (LineString cs) = Inr (MultiLineString (ps @ [cs]))"
| "add ml g = Inl OGRException"

section \<open>The Line model\<close>

record 'c Line =
  line_pk :: nat
  line_name :: string
  line_slug :: "string option"
  linestring_2229 :: "'c geom option"
  linestring_4269 :: "'c geom option"
  linestring_4326 :: "'c geom option"
  linestring_900913 :: "'c geom option"
  simple_linestring_2229 :: "'c geom option"
  simple_linestring_4269 :: "'c geom option"
  simple_linestring_4326 :: "'c geom option"
  simple_linestring_900913 :: "'c geom option"

text \<open>The names of the model's fields, in the order of their declaration.\<close>

definition Line_fields :: "string list" where
  "Line_fields =
     [''id'', ''name'', ''slug'',
      ''linestring_2229'', ''linestring_4269'', ''linestring_4326'', ''linestring_900913'',
      ''simple_linestring_2229'', ''simple_linestring_4269'', ''simple_linestring_4326'',
      ''simple_linestring_900913'']"

text \<open>
  \<^verbatim>\<open>getattr\<close> and \<^verbatim>\<open>setattr\<close> on the geometry fields. The methods build every name they
  use from a member of \<open>get_srid_list\<close>; for any other name \<^verbatim>\<open>getattr\<close> raises, and
  \<^verbatim>\<open>setattr\<close> would add an attribute that is no field of the model. What the methods
  assign is the transform of a geometry the model's own field holds, the text form of a
  geometry, or \<^verbatim>\<open>None\<close>.
\<close>

definition getattr_Line :: "'c Line \<Rightarrow> string \<Rightarrow> error + 'c geom option" where
  "getattr_Line self nm =
     (if nm = ''linestring_2229'' then Inr (linestring_2229 self)
      else if nm = ''linestring_4269'' then Inr (linestring_4269 self)
      else if nm = ''linestring_4326'' then Inr (linestring_4326 self)
      else if nm = ''linestring_900913'' then Inr (linestring_900913 self)
      else if nm = ''simple_linestring_2229'' then Inr (simple_linestring_2229 self)
      else if nm = ''simple_linestring_4269'' then Inr (simple_linestring_4269 self)
      else if nm = ''simple_linestring_4326'' then Inr (simple_linestring_4326 self)
      else if nm = ''simple_linestring_900913'' then Inr (simple_linestring_900913 self)
      else Inl AttributeError)"

definition setattr_Line :: "'c Line \<Rightarrow> string \<Rightarrow> 'c geom option \<Rightarrow> 'c Line" where
  "setattr_Line self nm v =
     (if nm = ''linestring_2229'' then self\<lparr>linestring_2229 := v\<rparr>
      else if nm = ''linestring_4269'' then self\<lparr>linestring_4269 := v\<rparr>
      else if nm = ''linestring_4326'' then self\<lparr>linestring_4326 := v\<rparr>
      else if nm = ''linestring_900913'' then self\<lparr>linestring_900913 := v\<rparr>
      else if nm = ''simple_linestring_2229'' then self\<lparr>simple_linestring_2229 := v\<rparr>
      else if nm = ''simple_linestring_4269'' then self\<lparr>simple_linestring_4269 := v\<rparr>
      else if nm = ''simple_linestring_4326'' then self\<lparr>simple_linestring_4326 := v\<rparr>
      else if nm = ''simple_linestring_900913'' then self\<lparr>simple_linestring_900913 := v\<rparr>
      else self)"

text \<open>\<^verbatim>\<open>Line.get_srid_list\<close>: the number after the underscore of every field whose name
  starts with \<^verbatim>\<open>linestring_\<close>.\<close>

definition get_srid_list_Line :: "int list" where
  "get_srid_list_Line =
     (let fields = filter (\<lambda>i. startswith i ''linestring_'') Line_fields
      in map (\<lambda>i. int_str (split_str i CHR ''_'' ! 1)) fields)"

subsection \<open>\<^verbatim>\<open>Line.set_linestrings\<close>\<close>

text \<open>
  The loop over the remaining SRIDs. \<open>transform g srid\<close> is the library's
  \<^verbatim>\<open>g.transform(srid, clone=True)\<close>; on \<^verbatim>\<open>None\<close> the call is an \<open>AttributeError\<close>.
\<close>

fun set_linestrings_loop ::
  "('c geom \<Rightarrow> int \<Rightarrow> 'c geom) \<Rightarrow> 'c geom option \<Rightarrow> int list \<Rightarrow> 'c Line \<Rightarrow> 'c Line outcome"
where
  "set_linestrings_loop transform canonical_data [] self = Inr self"
| "set_linestrings_loop transform canonical_data (srid # rest) self =
     (case canonical_data of
        None \<Rightarrow> Inl (AttributeError, self)
      | Some g \<Rightarrow>
          (let copy = transform g srid;
               this_field = ''linestring_'' @ str_int srid
           in set_linestrings_loop transform canonical_data rest
                (setattr_Line self this_field (Some copy))))"

definition set_linestrings ::
  "('c geom \<Rightarrow> int \<Rightarrow> 'c geom) \<Rightarrow> 'c Line \<Rightarrow> int \<Rightarrow> 'c Line outcome"
where
  "set_linestrings transform self canonical_srid =
     (let srid_list = get_srid_list_Line
      in if canonical_srid \<notin> set srid_list then Inl (ValueError, self)
         else
           (let canonical_field = ''linestring_'' @ str_int canonical_srid
            in case getattr_Line self canonical_field of
                 Inl e \<Rightarrow> Inl (e, self)
               | Inr canonical_data \<Rightarrow>
                   set_linestrings_loop transform canonical_data
                     (remove1 canonical_srid srid_list) self))"

subsection \<open>\<^verbatim>\<open>Line.set_simple_linestrings\<close>\<close>

text \<open>
  One pass of the loop body for one SRID. \<open>simplify g tolerance True\<close> is the library's
  \<^verbatim>\<open>g.simplify(tolerance, True)\<close>; \<^verbatim>\<open>deepcopy\<close> of a value is the value; the shell
  \<^verbatim>\<open>OGRGeometry(OGRGeomType('MultiLineString'))\<close> is the multi-part line with no part;
  \<^verbatim>\<open>simple.transform(srid)\<close> transforms in place, and the field receives the text form
  of the geometry, which denotes the same geometry.
\<close>

definition set_simple_linestrings_body ::
  "('c geom \<Rightarrow> int \<Rightarrow> 'c geom) \<Rightarrow> ('c geom \<Rightarrow> 't \<Rightarrow> bool \<Rightarrow> 'c geom) \<Rightarrow> 't \<Rightarrow>
   'c Line \<Rightarrow> int \<Rightarrow> 'c Line outcome"
where
  "set_simple_linestrings_body transform simplify tolerance self srid =
     (let source_field_name = ''linestring_'' @ str_int srid
      in case getattr_Line self source_field_name of
           Inl e \<Rightarrow> Inl (e, self)
         | Inr source \<Rightarrow>
             (let target_field_name = ''simple_'' @ source_field_name
              in if not_source source then Inr (setattr_Line self target_field_name None)
                 else
                   (case source of
                      None \<Rightarrow> Inr (setattr_Line self target_field_name None)
                    | Some src \<Rightarrow>
                        (let copy = (if srid \<noteq> 900913 then transform src 900913 else src);
                             simple = simplify copy tolerance True
                         in if geom_type simple = ''LineString'' then
                              (let ml = MultiLineString [];
                                   simple' = transform simple srid
                               in case add ml simple' of
                                    Inl e \<Rightarrow> Inl (e, self)
                                  | Inr target \<Rightarrow>
                                      Inr (setattr_Line self target_field_name (Some target)))
                            else
                              (let simple' = transform simple srid;
                                   target = simple'
                               in Inr (setattr_Line self target_field_name (Some target)))))))"

fun set_simple_linestrings_loop ::
  "('c geom \<Rightarrow> int \<Rightarrow> 'c geom) \<Rightarrow> ('c geom \<Rightarrow> 't \<Rightarrow> bool \<Rightarrow> 'c geom) \<Rightarrow> 't \<Rightarrow>
   int list \<Rightarrow> 'c Line \<Rightarrow> 'c Line outcome"
where
  "set_simple_linestrings_loop transform simplify tolerance [] self = Inr self"
| "set_simple_linestrings_loop transform simplify tolerance (srid # rest) self =
     (case set_simple_linestrings_body transform simplify tolerance self srid of
        Inl e \<Rightarrow> Inl e
      | Inr self' \<Rightarrow> set_simple_linestrings_loop transform simplify tolerance rest self')"

definition set_simple_linestrings ::
  "('c geom \<Rightarrow> int \<Rightarrow> 'c geom) \<Rightarrow> ('c geom \<Rightarrow> 't \<Rightarrow> bool \<Rightarrow> 'c geom) \<Rightarrow> 't \<Rightarrow>
   'c Line \<Rightarrow> 'c Line outcome"
where
  "set_simple_linestrings transform simplify tolerance self =
     (let srid_list = get_srid_list_Line
      in set_simple_linestrings_loop transform simplify tolerance srid_list self)"

section \<open>The Stop model\<close>

record 'c Stop =
  stop_pk :: nat
  stop_name :: "string option"
  stop_slug :: "string option"
  stop_id :: "int option"
  station :: "nat option"
  point_4269 :: "'c geom option"
  point_4326 :: "'c geom option"
  point_900913 :: "'c geom option"

definition Stop_fields :: "string list" where
  "Stop_fields =
     [''id'', ''name'', ''slug'', ''stop_id'', ''station'',
      ''point_4269'', ''point_4326'', ''point_900913'']"

definition getattr_Stop :: "'c Stop \<Rightarrow> string \<Rightarrow> error + 'c geom option" where
  "getattr_Stop self nm =
     (if nm = ''point_4269'' then Inr (point_4269 self)
      else if nm = ''point_4326'' then Inr (point_4326 self)
      else if nm = ''point_900913'' then Inr (point_900913 self)
      else Inl AttributeError)"

definition setattr_Stop :: "'c Stop \<Rightarrow> string \<Rightarrow> 'c geom option \<Rightarrow> 'c Stop" where
  "setattr_Stop self nm v =
     (if nm = ''point_4269'' then self\<lparr>point_4269 := v\<rparr>
      else if nm = ''point_4326'' then self\<lparr>point_4326 := v\<rparr>
      else if nm = ''point_900913'' then self\<lparr>point_900913 := v\<rparr>
      else self)"

definition get_srid_list_Stop :: "int list" where
  "get_srid_list_Stop =
     (let fields = filter (\<lambda>i. startswith i ''point_'') Stop_fields
      in map (\<lambda>i. int_str (split_str i CHR ''_'' ! 1)) fields)"

subsection \<open>\<^verbatim>\<open>Stop.set_point\<close>\<close>

fun set_point_loop ::
  "('c geom \<Rightarrow> int \<Rightarrow> 'c geom) \<Rightarrow> 'c geom option \<Rightarrow> int list \<Rightarrow> 'c Stop \<Rightarrow> 'c Stop outcome"
where
  "set_point_loop transform canonical_data [] self = Inr self"
| "set_point_loop transform canonical_data (srid # rest) self =
     (case canonical_data of
        None \<Rightarrow> Inl (AttributeError, self)
      | Some g \<Rightarrow>
          (let copy = transform g srid;
               this_field = ''point_'' @ str_int srid
           in set_point_loop transform canonical_data rest
                (setattr_Stop self this_field (Some copy))))"

definition set_point ::
  "('c geom \<Rightarrow> int \<Rightarrow> 'c geom) \<Rightarrow> 'c Stop \<Rightarrow> int \<Rightarrow> 'c Stop outcome"
where
  "set_point transform self canonical_srid =
     (let srid_list = get_srid_list_Stop
      in if canonical_srid \<notin> set srid_list then Inl (ValueError, self)
         else
           (let canonical_field = ''point_'' @ str_int canonical_srid
            in case getattr_Stop self canonical_field of
                 Inl e \<Rightarrow> Inl (e, self)
               | Inr canonical_data \<Rightarrow>
                   set_point_loop transform canonical_data
                     (remove1 canonical_srid srid_list) self))"

section \<open>The Station model and the database\<close>

record Station =
  station_pk :: nat
  station_name :: string
  station_slug :: "string option"

text \<open>
  The tables the loader reads and writes: one list of rows per model, in the order of
  insertion; the two many-to-many tables \<^verbatim>\<open>Stop.lines\<close> and \<^verbatim>\<open>Station.lines\<close> as the set
  of line keys of each stop and station key; and the next key of the two tables the loader
  inserts into.
\<close>

record 'c store =
  Line_objects :: "'c Line list"
  Stop_objects :: "'c Stop list"
  Station_objects :: "Station list"
  Stop_lines :: "nat \<Rightarrow> nat set"
  Station_lines :: "nat \<Rightarrow> nat set"
  Line_next_id :: nat
  Station_next_id :: nat

section \<open>\<^verbatim>\<open>load.fix_line_dupes\<close>\<close>

text \<open>
  \<^verbatim>\<open>Line.objects.values('name').annotate(count=Count('name')).filter(count__gt=1)\<close>: the
  names held by more than one row, each once, in the order of the model's
  \<^verbatim>\<open>ordering = ('name',)\<close>. How the database orders names is its collation, which the
  code does not fix: \<open>collate\<close> gives the sort key of a name under it.
\<close>

definition dupe_list :: "(string \<Rightarrow> 'k::linorder) \<Rightarrow> 'c store \<Rightarrow> string list" where
  "dupe_list collate st =
     sort_key collate (remdups (filter
       (\<lambda>n. 1 < length (filter (\<lambda>l. line_name l = n) (Line_objects st)))
       (map line_name (Line_objects st))))"

text \<open>\<^verbatim>\<open>Line.objects.filter(name=nm)\<close>: the rows of that name.\<close>

definition Line_objects_filter :: "'c store \<Rightarrow> string \<Rightarrow> 'c Line list" where
  "Line_objects_filter st nm = filter (\<lambda>l. line_name l = nm) (Line_objects st)"

text \<open>\<^verbatim>\<open>Line.objects.create(name=..., linestring_2229=...)\<close>: a new row under a new key, every
  other field empty.\<close>

definition new_Line :: "nat \<Rightarrow> string \<Rightarrow> 'c geom option \<Rightarrow> 'c Line" where
  "new_Line k nm ls =
     \<lparr>line_pk = k, line_name = nm, line_slug = None,
      linestring_2229 = ls, linestring_4269 = None, linestring_4326 = None,
      linestring_900913 = None, simple_linestring_2229 = None,
      simple_linestring_4269 = None, simple_linestring_4326 = None,
      simple_linestring_900913 = None\<rparr>"

text \<open>
  \<^verbatim>\<open>linestring_2229\<close> is a \<^verbatim>\<open>MultiLineStringField\<close>: given a geometry object, the field
  takes it only when its \<open>geom_type\<close> is the field's own, and raises \<open>TypeError\<close>
  otherwise; \<^verbatim>\<open>None\<close> is taken as it is.
\<close>

definition MultiLineStringField_accepts :: "'c geom option \<Rightarrow> bool" where
  "MultiLineStringField_accepts v =
     (case v of None \<Rightarrow> True | Some g \<Rightarrow> geom_type g = ''MultiLineString'')"

definition Line_objects_create ::
  "'c store \<Rightarrow> string \<Rightarrow> 'c geom option \<Rightarrow> error + ('c Line \<times> 'c store)"
where
  "Line_objects_create st nm ls =
     (if MultiLineStringField_accepts ls then
        (let this_obj = new_Line (Line_next_id st) nm ls
         in Inr (this_obj,
                 st\<lparr>Line_objects := Line_objects st @ [this_obj],
                    Line_next_id := Suc (Line_next_id st)\<rparr>))
      else Inl TypeError)"

text \<open>\<^verbatim>\<open>i.delete()\<close> on a line: its row goes, and with it the rows of the many-to-many
  tables that name it.\<close>

definition delete_Line :: "'c Line \<Rightarrow> 'c store \<Rightarrow> 'c store" where
  "delete_Line i st =
     st\<lparr>Line_objects := filter (\<lambda>l. line_pk l \<noteq> line_pk i) (Line_objects st),
        Stop_lines := (\<lambda>k. Stop_lines st k - {line_pk i}),
        Station_lines := (\<lambda>k. Station_lines st k - {line_pk i})\<rparr>"

text \<open>
  The body of the loop for one duplicated name. \<open>unionagg\<close> is the union aggregate of
  the geometry library over the first geometry field, \<^verbatim>\<open>linestring_2229\<close>, of the selected
  rows; it may raise, and nothing catches what it raises. \<^verbatim>\<open>this_list[0]\<close> raises on an
  empty selection, and \<^verbatim>\<open>Line.objects.create\<close> when the field refuses the union. The
  rows to delete are selected after the new row is created.
\<close>

definition fix_line_dupes_body ::
  "('c geom option list \<Rightarrow> error + 'c geom option) \<Rightarrow> 'c store \<Rightarrow> string \<Rightarrow> 'c store outcome"
where
  "fix_line_dupes_body unionagg st dupe =
     (let this_list = Line_objects_filter st dupe
      in case unionagg (map linestring_2229 this_list) of
           Inl e \<Rightarrow> Inl (e, st)
         | Inr this_multilinestring \<Rightarrow>
             (case this_list of
                [] \<Rightarrow> Inl (IndexError, st)
              | first # others \<Rightarrow>
                  (case Line_objects_create st (line_name first) this_multilinestring of
                     Inl e \<Rightarrow> Inl (e, st)
                   | Inr (this_obj, st1) \<Rightarrow>
                       (let doomed = filter (\<lambda>l. line_pk l \<noteq> line_pk this_obj)
                                       (Line_objects_filter st1 dupe)
                        in Inr (fold delete_Line doomed st1)))))"

fun fix_line_dupes_loop ::
  "('c geom option list \<Rightarrow> error + 'c geom option) \<Rightarrow> string list \<Rightarrow> 'c store \<Rightarrow>
   'c store outcome"
where
  "fix_line_dupes_loop unionagg [] st = Inr st"
| "fix_line_dupes_loop unionagg (dupe # rest) st =
     (case fix_line_dupes_body unionagg st dupe of
        Inl e \<Rightarrow> Inl e
      | Inr st' \<Rightarrow> fix_line_dupes_loop unionagg rest st')"

definition fix_line_dupes ::
  "('c geom option list \<Rightarrow> error + 'c geom option) \<Rightarrow> (string \<Rightarrow> 'k::linorder) \<Rightarrow>
   'c store \<Rightarrow> 'c store outcome"
where
  "fix_line_dupes unionagg collate st =
     fix_line_dupes_loop unionagg (dupe_list collate st) st"

text \<open>Primary keys: no two rows of the line table share one, and the next key is above all.\<close>

definition Line_keys_ok :: "'c store \<Rightarrow> bool" where
  "Line_keys_ok st =
     (distinct (map line_pk (Line_objects st))
      \<and> list_all (\<lambda>l. line_pk l < Line_next_id st) (Line_objects st))"

section \<open>\<^verbatim>\<open>load.stations\<close>\<close>

text \<open>
  A row of the crosswalk is a dictionary from column names to strings, and
  \<open>stop_lookup\<close> the dictionary of the rows by their \<^verbatim>\<open>stop_id\<close>. A string is true
  when it is not empty, and \<^verbatim>\<open>None\<close> is false.
\<close>

type_synonym crosswalk_row = "string \<rightharpoonup> string"

definition bool_str :: "string option \<Rightarrow> bool" where
  "bool_str v = (case v of None \<Rightarrow> False | Some s \<Rightarrow> s \<noteq> [])"

text \<open>The \<^verbatim>\<open>slugify\<close> filter turns its argument into text first, so \<^verbatim>\<open>None\<close> is read
  as \<^verbatim>\<open>'None'\<close>.\<close>

definition slugify_filter :: "(string \<Rightarrow> string) \<Rightarrow> string option \<Rightarrow> string" where
  "slugify_filter slugify v = slugify (case v of None \<Rightarrow> ''None'' | Some s \<Rightarrow> s)"

text \<open>\<^verbatim>\<open>Line.objects.get(name=nm)\<close>: the one row of that name.\<close>

definition Line_objects_get :: "'c store \<Rightarrow> string \<Rightarrow> error + 'c Line" where
  "Line_objects_get st nm =
     (case Line_objects_filter st nm of
        [] \<Rightarrow> Inl DoesNotExist
      | [l] \<Rightarrow> Inr l
      | l # l' # ls \<Rightarrow> Inl MultipleObjectsReturned)"

text \<open>
  \<^verbatim>\<open>if this_crosswalk.get(col, None): stop.lines.add(Line.objects.get(name=...))\<close>.
  The addition is written to the many-to-many table at once.
\<close>

definition add_crosswalk_line ::
  "'c store \<Rightarrow> 'c Stop \<Rightarrow> string option \<Rightarrow> error + 'c store"
where
  "add_crosswalk_line st stop v =
     (if bool_str v then
        (case v of
           None \<Rightarrow> Inr st
         | Some nm \<Rightarrow>
             (case Line_objects_get st nm of
                Inl e \<Rightarrow> Inl e
              | Inr line \<Rightarrow>
                  Inr (st\<lparr>Stop_lines := (Stop_lines st)
                         (stop_pk stop := insert (line_pk line) (Stop_lines st (stop_pk stop)))\<rparr>)))
      else Inr st)"

text \<open>
  \<^verbatim>\<open>Station.objects.get_or_create(name=..., slug=...)\<close>: the one station of that name and
  slug, or a new row. The name column is not nullable, so creating a station named
  \<^verbatim>\<open>None\<close> is refused by the database.
\<close>

definition Station_objects_get_or_create ::
  "'c store \<Rightarrow> string option \<Rightarrow> string \<Rightarrow> error + (Station \<times> 'c store)"
where
  "Station_objects_get_or_create st nm sl =
     (case nm of
        None \<Rightarrow> Inl IntegrityError
      | Some n \<Rightarrow>
          (case filter (\<lambda>s. station_name s = n \<and> station_slug s = Some sl) (Station_objects st) of
             [] \<Rightarrow>
               (let obj = \<lparr>station_pk = Station_next_id st, station_name = n,
                           station_slug = Some sl\<rparr>
                in Inr (obj, st\<lparr>Station_objects := Station_objects st @ [obj],
                               Station_next_id := Suc (Station_next_id st)\<rparr>))
           | [s] \<Rightarrow> Inr (s, st)
           | s # s' # ss \<Rightarrow> Inl MultipleObjectsReturned))"

text \<open>\<^verbatim>\<open>stop.save()\<close>: the row of the stop's key is overwritten with the object.\<close>

definition save_Stop :: "'c store \<Rightarrow> 'c Stop \<Rightarrow> 'c store" where
  "save_Stop st stop =
     st\<lparr>Stop_objects := map (\<lambda>s. if stop_pk s = stop_pk stop then stop else s) (Stop_objects st)\<rparr>"

text \<open>
  The body of the loop for one stop. An exception leaves the database as the statements
  before it wrote it. \<^verbatim>\<open>station.save()\<close> rewrites the station's row with the values it
  has.
\<close>

definition stations_body ::
  "(string \<rightharpoonup> crosswalk_row) \<Rightarrow> (string \<Rightarrow> string) \<Rightarrow> 'c store \<Rightarrow> 'c Stop \<Rightarrow> 'c store outcome"
where
  "stations_body stop_lookup slugify st stop =
     (case stop_lookup (str_int_option (stop_id stop)) of
        None \<Rightarrow> Inl (KeyError, st)
      | Some this_crosswalk \<Rightarrow>
          (let stop1 = stop\<lparr>stop_name := this_crosswalk ''clean_station_name''\<rparr>;
               stop2 = stop1\<lparr>stop_slug :=
                   Some (slugify_filter slugify (stop_name stop1) @ ''-'' @
                         str_int_option (stop_id stop1))\<rparr>
           in case add_crosswalk_line st stop2 (this_crosswalk ''Line1'') of
                Inl e \<Rightarrow> Inl (e, st)
              | Inr st1 \<Rightarrow>
                  (case add_crosswalk_line st1 stop2 (this_crosswalk ''Line2'') of
                     Inl e \<Rightarrow> Inl (e, st1)
                   | Inr st2 \<Rightarrow>
                       (case Station_objects_get_or_create st2
                               (this_crosswalk ''clean_station_name'')
                               (slugify_filter slugify (this_crosswalk ''clean_station_name'')) of
                          Inl e \<Rightarrow> Inl (e, st2)
                        | Inr (station_obj, st3) \<Rightarrow>
                            (let stop3 = stop2\<lparr>station := Some (station_pk station_obj)\<rparr>;
                                 st4 = save_Stop st3 stop3
                             in Inr (st4\<lparr>Station_lines := (Station_lines st4)
                                      (station_pk station_obj :=
                                         Station_lines st4 (station_pk station_obj) \<union>
                                         Stop_lines st4 (stop_pk stop3))\<rparr>))))))"

fun stations_loop ::
  "(string \<rightharpoonup> crosswalk_row) \<Rightarrow> (string \<Rightarrow> string) \<Rightarrow> 'c Stop list \<Rightarrow> 'c store \<Rightarrow>
   'c store outcome"
where
  "stations_loop stop_lookup slugify [] st = Inr st"
| "stations_loop stop_lookup slugify (stop # rest) st =
     (case stations_body stop_lookup slugify st stop of
        Inl e \<Rightarrow> Inl e
      | Inr st' \<Rightarrow> stations_loop stop_lookup slugify rest st')"

text \<open>
  \<^verbatim>\<open>Stop.objects.all()\<close>: the rows in the order of the model's \<^verbatim>\<open>ordering = ('stop_id',)\<close>,
  rows of equal \<^verbatim>\<open>stop_id\<close> in the order of the table and rows without one last.
\<close>

definition stop_id_value :: "'c Stop \<Rightarrow> int" where
  "stop_id_value s = (case stop_id s of None \<Rightarrow> 0 | Some i \<Rightarrow> i)"

definition Stop_objects_all :: "'c store \<Rightarrow> 'c Stop list" where
  "Stop_objects_all st =
     sort_key stop_id_value (filter (\<lambda>s. stop_id s \<noteq> None) (Stop_objects st))
     @ filter (\<lambda>s. stop_id s = None) (Stop_objects st)"

text \<open>\<^verbatim>\<open>for stop in Stop.objects.all()\<close> runs over the rows as they are when the loop starts.\<close>

definition stations ::
  "(string \<rightharpoonup> crosswalk_row) \<Rightarrow> (string \<Rightarrow> string) \<Rightarrow> 'c store \<Rightarrow> 'c store outcome"
where
  "stations stop_lookup slugify st = stations_loop stop_lookup slugify (Stop_objects_all st) st"

section \<open>Conditions on the database used in the statements\<close>

text \<open>
  \<open>line_resolves\<close>: the line named by a crosswalk column, when the column is filled, is
  held by exactly one row, so that \<^verbatim>\<open>Line.objects.get\<close> returns.
  \<open>crosswalk_resolves\<close>: the stop has a crosswalk entry with a station name, and its
  lines resolve. \<open>rolled_up st P\<close>: for the stops with keys in \<open>P\<close>, every station key
  has as line set the union of the line sets of the stops that refer to it, and every such
  stop refers to a row of the station table. \<open>outcome_store\<close> is the database a run
  leaves, returned or raised.
\<close>

definition line_resolves :: "'c store \<Rightarrow> string option \<Rightarrow> bool" where
  "line_resolves st v =
     (case v of None \<Rightarrow> True | Some nm \<Rightarrow> nm = [] \<or> length (Line_objects_filter st nm) = 1)"

definition crosswalk_resolves ::
  "(string \<rightharpoonup> crosswalk_row) \<Rightarrow> 'c store \<Rightarrow> 'c Stop \<Rightarrow> bool"
where
  "crosswalk_resolves stop_lookup st stop =
     (case stop_lookup (str_int_option (stop_id stop)) of
        None \<Rightarrow> False
      | Some row \<Rightarrow>
          row ''clean_station_name'' \<noteq> None
          \<and> line_resolves st (row ''Line1'') \<and> line_resolves st (row ''Line2''))"

definition outcome_store :: "'a outcome \<Rightarrow> 'a" where
  "outcome_store r = (case r of Inl (e, s) \<Rightarrow> s | Inr s \<Rightarrow> s)"

definition rolled_up :: "'c store \<Rightarrow> nat set \<Rightarrow> bool" where
  "rolled_up st P =
     ((\<forall>k. Station_lines st k =
            (\<Union>s \<in> {s \<in> set (Stop_objects st). stop_pk s \<in> P \<and> station s = Some k}.
                Stop_lines st (stop_pk s)))
      \<and> (\<forall>s \<in> set (Stop_objects st). stop_pk s \<in> P \<longrightarrow>
            (\<exists>t \<in> set (Station_objects st). station s = Some (station_pk t))))"

section \<open>Example data\<close>

text \<open>
  A transform that shifts every coordinate by the target SRID, a simplification that joins
  a multi-part line of at most two parts into a single line, and a line and a stop to run
  the methods on.
\<close>

fun example_transform :: "int geom \<Rightarrow> int \<Rightarrow> int geom" where
  "example_transform (Point p) srid = Point (p + srid)"
| "example_transform (LineString cs) srid = LineString (map (\<lambda>c. c + srid) cs)"
| "example_transform (MultiLineString ps) srid = MultiLineString (map (map (\<lambda>c. c + srid)) ps)"

fun example_simplify :: "int geom \<Rightarrow> nat \<Rightarrow> bool \<Rightarrow> int geom" where
  "example_simplify (MultiLineString ps) tolerance preserve_topology =
     (if length ps \<le> 2 then LineString (concat ps) else MultiLineString ps)"
| "example_simplify g tolerance preserve_topology = g"

definition example_line :: "int Line" where
  "example_line =
     \<lparr>line_pk = 1, line_name = ''Gold'', line_slug = None,
      linestring_2229 = Some (MultiLineString [[0, 1], [1, 2]]),
      linestring_4269 = None,
      linestring_4326 = Some (MultiLineString []),
      linestring_900913 = Some (MultiLineString [[5, 6], [7, 8], [9, 10]]),
      simple_linestring_2229 = None, simple_linestring_4269 = None,
      simple_linestring_4326 = Some (LineString [3]), simple_linestring_900913 = None\<rparr>"

definition example_stop :: "int Stop" where
  "example_stop =
     \<lparr>stop_pk = 7, stop_name = Some ''UNION STATION'', stop_slug = None, stop_id = Some 100,
      station = None, point_4269 = Some (Point 40), point_4326 = None,
      point_900913 = Some (Point 3)\<rparr>"

text \<open>
  A union aggregate that gathers the parts of the lines it is given, each part once, and
  raises on a point: the union is a single line when one part is left, as the union of
  equal fragments is. A line table with three fragments of the Red line, two of the Gold
  line and one Blue line. Names are ordered by their characters.
\<close>

fun collect_parts :: "int geom option list \<Rightarrow> error + int list list" where
  "collect_parts [] = Inr []"
| "collect_parts (None # gs) = collect_parts gs"
| "collect_parts (Some (MultiLineString ps) # gs) =
     (case collect_parts gs of Inl e \<Rightarrow> Inl e | Inr qs \<Rightarrow> Inr (ps @ qs))"
| "collect_parts (Some (LineString cs) # gs) =
     (case collect_parts gs of Inl e \<Rightarrow> Inl e | Inr qs \<Rightarrow> Inr (cs # qs))"
| "collect_parts (Some (Point p) # gs) = Inl DatabaseError"

definition example_unionagg :: "int geom option list \<Rightarrow> error + int geom option" where
  "example_unionagg gs =
     (case collect_parts gs of
        Inl e \<Rightarrow> Inl e
      | Inr ps \<Rightarrow>
          (case remdups ps of
             [] \<Rightarrow> Inr None
           | [p] \<Rightarrow> Inr (Some (LineString p))
           | p # q # qs \<Rightarrow> Inr (Some (MultiLineString (p # q # qs)))))"

definition example_collate :: "string \<Rightarrow> string" where
  "example_collate nm = nm"

definition example_lines :: "int Line list" where
  "example_lines =
     [new_Line 1 ''Red'' (Some (MultiLineString [[0, 1]])),
      new_Line 2 ''Gold'' (Some (MultiLineString [[5, 6]])),
      new_Line 3 ''Red'' (Some (MultiLineString [[1, 2]])),
      new_Line 4 ''Blue'' (Some (MultiLineString [[9, 9]])),
      new_Line 5 ''Gold'' (Some (MultiLineString [[6, 7]])),
      new_Line 6 ''Red'' (Some (MultiLineString [[2, 3]]))]"

definition example_store :: "int Line list \<Rightarrow> int store" where
  "example_store ls =
     \<lparr>Line_objects = ls, Stop_objects = [], Station_objects = [],
      Stop_lines = (\<lambda>k. {}), Station_lines = (\<lambda>k. {}),
      Line_next_id = 7, Station_next_id = 1\<rparr>"

text \<open>The same table with a point as the geometry of one fragment of the Red line, and
  with a point in the Gold line.\<close>

definition example_lines_bad_Red :: "int Line list" where
  "example_lines_bad_Red = example_lines[2 := new_Line 3 ''Red'' (Some (Point 1))]"

definition example_lines_bad_Gold :: "int Line list" where
  "example_lines_bad_Gold = example_lines[4 := new_Line 5 ''Gold'' (Some (Point 6))]"

text \<open>Two fragments of the Red line with the same geometry.\<close>

definition example_lines_identical :: "int Line list" where
  "example_lines_identical =
     [new_Line 1 ''Red'' (Some (MultiLineString [[0, 1]])),
      new_Line 2 ''Red'' (Some (MultiLineString [[0, 1]]))]"

text \<open>
  A crosswalk of three stops on two stations, the stops as imported, and a line table with
  the Gold and Red lines; and the same stops with one whose identifier the crosswalk lacks.
\<close>

definition example_slugify :: "string \<Rightarrow> string" where
  "example_slugify s = map (\<lambda>c. if c = CHR '' '' then CHR ''-'' else c) s"

definition example_stop_lookup :: "string \<rightharpoonup> crosswalk_row" where
  "example_stop_lookup =
     map_of
       [(''100'', map_of [(''stop_id'', ''100''), (''clean_station_name'', ''Union Station''),
                          (''Line1'', ''Gold''), (''Line2'', ''Red'')]),
        (''101'', map_of [(''stop_id'', ''101''), (''clean_station_name'', ''Union Station''),
                          (''Line1'', ''Gold''), (''Line2'', '''')]),
        (''102'', map_of [(''stop_id'', ''102''), (''clean_station_name'', ''Civic Center''),
                          (''Line1'', ''Red'')])]"

definition example_raw_stop :: "nat \<Rightarrow> int \<Rightarrow> int Stop" where
  "example_raw_stop k i =
     \<lparr>stop_pk = k, stop_name = Some ''RAW'', stop_slug = None, stop_id = Some i,
      station = None, point_4269 = Some (Point 40), point_4326 = None, point_900913 = None\<rparr>"

definition example_rollup_store :: "int Stop list \<Rightarrow> int store" where
  "example_rollup_store stops =
     \<lparr>Line_objects = [new_Line 7 ''Gold'' None, new_Line 8 ''Red'' None],
      Stop_objects = stops, Station_objects = [],
      Stop_lines = (\<lambda>k. {}), Station_lines = (\<lambda>k. {}),
      Line_next_id = 9, Station_next_id = 1\<rparr>"

definition example_stops :: "int Stop list" where
  "example_stops = [example_raw_stop 1 100, example_raw_stop 2 101, example_raw_stop 3 102]"

definition example_stops_missing :: "int Stop list" where
  "example_stops_missing = [example_raw_stop 1 100, example_raw_stop 2 999, example_raw_stop 3 102]"

section \<open>Field names and SRID lists\<close>

lemma str_int_2229 [simp]: "str_int 2229 = ''2229''"
  by (simp add: str_int_def str_nat.simps digit_char_def)

lemma str_int_4269 [simp]: "str_int 4269 = ''4269''"
  by (simp add: str_int_def str_nat.simps digit_char_def)

lemma str_int_4326 [simp]: "str_int 4326 = ''4326''"
  by (simp add: str_int_def str_nat.simps digit_char_def)

lemma str_int_900913 [simp]: "str_int 900913 = ''900913''"
  by (simp add: str_int_def str_nat.simps digit_char_def)

lemma get_srid_list_Line_eq: "get_srid_list_Line = [2229, 4269, 4326, 900913]"
  by (simp add: get_srid_list_Line_def Line_fields_def startswith_def split_str_def
      int_str_def digit_val_def)

lemma get_srid_list_Stop_eq: "get_srid_list_Stop = [4269, 4326, 900913]"
  by (simp add: get_srid_list_Stop_def Stop_fields_def startswith_def split_str_def
      int_str_def digit_val_def)

section \<open>Accessors on literal field names\<close>

lemma getattr_Line_lit:
  "getattr_Line self ''linestring_2229'' = Inr (linestring_2229 self)"
  "getattr_Line self ''linestring_4269'' = Inr (linestring_4269 self)"
  "getattr_Line self ''linestring_4326'' = Inr (linestring_4326 self)"
  "getattr_Line self ''linestring_900913'' = Inr (linestring_900913 self)"
  "getattr_Line self ''simple_linestring_2229'' = Inr (simple_linestring_2229 self)"
  "getattr_Line self ''simple_linestring_4269'' = Inr (simple_linestring_4269 self)"
  "getattr_Line self ''simple_linestring_4326'' = Inr (simple_linestring_4326 self)"
  "getattr_Line self ''simple_linestring_900913'' = Inr (simple_linestring_900913 self)"
  by (simp_all add: getattr_Line_def)

lemma setattr_Line_lit:
  "setattr_Line self ''linestring_2229'' v = self\<lparr>linestring_2229 := v\<rparr>"
  "setattr_Line self ''linestring_4269'' v = self\<lparr>linestring_4269 := v\<rparr>"
  "setattr_Line self ''linestring_4326'' v = self\<lparr>linestring_4326 := v\<rparr>"
  "setattr_Line self ''linestring_900913'' v = self\<lparr>linestring_900913 := v\<rparr>"
  "setattr_Line self ''simple_linestring_2229'' v = self\<lparr>simple_linestring_2229 := v\<rparr>"
  "setattr_Line self ''simple_linestring_4269'' v = self\<lparr>simple_linestring_4269 := v\<rparr>"
  "setattr_Line self ''simple_linestring_4326'' v = self\<lparr>simple_linestring_4326 := v\<rparr>"
  "setattr_Line self ''simple_linestring_900913'' v = self\<lparr>simple_linestring_900913 := v\<rparr>"
  by (simp_all add: setattr_Line_def)

lemma add_shell: "add (MultiLineString []) g = Inr t \<Longrightarrow> \<exists>cs. g = LineString cs \<and> t = MultiLineString [cs]"
  by (cases g) auto

lemma simple_body_sources:
  assumes "set_simple_linestrings_body transform simplify tolerance self srid = Inr self'"
    and "srid \<in> set get_srid_list_Line" and "k \<in> set get_srid_list_Line"
  shows "getattr_Line self' (''linestring_'' @ str_int k) = getattr_Line self (''linestring_'' @ str_int k)"
  using assms unfolding get_srid_list_Line_eq
  by (auto simp: set_simple_linestrings_body_def Let_def getattr_Line_lit setattr_Line_lit
      split: if_splits option.splits sum.splits)

lemma simple_body_other_targets:
  assumes "set_simple_linestrings_body transform simplify tolerance self srid = Inr self'"
    and "srid \<in> set get_srid_list_Line" and "k \<in> set get_srid_list_Line" and "k \<noteq> srid"
  shows "getattr_Line self' (''simple_linestring_'' @ str_int k) = getattr_Line self (''simple_linestring_'' @ str_int k)"
  using assms unfolding get_srid_list_Line_eq
  by (auto simp: set_simple_linestrings_body_def Let_def getattr_Line_lit setattr_Line_lit
      split: if_splits option.splits sum.splits)

lemma simple_body_depends_on_source:
  assumes "set_simple_linestrings_body transform simplify tolerance a srid = Inr a'"
    and "srid \<in> set get_srid_list_Line"
    and "getattr_Line b (''linestring_'' @ str_int srid) = getattr_Line a (''linestring_'' @ str_int srid)"
  shows "\<exists>b'. set_simple_linestrings_body transform simplify tolerance b srid = Inr b'
    \<and> getattr_Line b' (''simple_linestring_'' @ str_int srid) = getattr_Line a' (''simple_linestring_'' @ str_int srid)"
  using assms unfolding get_srid_list_Line_eq
  by (auto simp: set_simple_linestrings_body_def Let_def getattr_Line_lit setattr_Line_lit
      split: if_splits option.splits sum.splits)

section \<open>The simplification loop\<close>

lemma simple_loop_sources:
  assumes "set_simple_linestrings_loop transform simplify tolerance srids self = Inr self'"
    and "set srids \<subseteq> set get_srid_list_Line" and "k \<in> set get_srid_list_Line"
  shows "getattr_Line self' (''linestring_'' @ str_int k) = getattr_Line self (''linestring_'' @ str_int k)"
  using assms
proof (induction srids arbitrary: self)
  case Nil
  then show ?case by simp
next
  case (Cons x xs)
  from Cons.prems(1) obtain self1 where
    b: "set_simple_linestrings_body transform simplify tolerance self x = Inr self1"
    and l: "set_simple_linestrings_loop transform simplify tolerance xs self1 = Inr self'"
    by (auto split: sum.splits)
  from Cons.prems(2) have x: "x \<in> set get_srid_list_Line" and xs: "set xs \<subseteq> set get_srid_list_Line"
    by auto
  have "getattr_Line self' (''linestring_'' @ str_int k) = getattr_Line self1 (''linestring_'' @ str_int k)"
    using Cons.IH [OF l xs Cons.prems(3)] .
  also have "\<dots> = getattr_Line self (''linestring_'' @ str_int k)"
    using simple_body_sources [OF b x Cons.prems(3)] .
  finally show ?case .
qed

lemma simple_loop_frame:
  assumes "set_simple_linestrings_loop transform simplify tolerance srids self = Inr self'"
    and "set srids \<subseteq> set get_srid_list_Line" and "k \<in> set get_srid_list_Line"
    and "k \<notin> set srids"
  shows "getattr_Line self' (''simple_linestring_'' @ str_int k) =
         getattr_Line self (''simple_linestring_'' @ str_int k)"
  using assms
proof (induction srids arbitrary: self)
  case Nil
  then show ?case by simp
next
  case (Cons x xs)
  from Cons.prems(1) obtain self1 where
    b: "set_simple_linestrings_body transform simplify tolerance self x = Inr self1"
    and l: "set_simple_linestrings_loop transform simplify tolerance xs self1 = Inr self'"
    by (auto split: sum.splits)
  from Cons.prems(2) have x: "x \<in> set get_srid_list_Line" and xs: "set xs \<subseteq> set get_srid_list_Line"
    by auto
  from Cons.prems(4) have kx: "k \<noteq> x" and kxs: "k \<notin> set xs" by auto
  have "getattr_Line self' (''simple_linestring_'' @ str_int k) =
        getattr_Line self1 (''simple_linestring_'' @ str_int k)"
    using Cons.IH [OF l xs Cons.prems(3) kxs] .
  also have "\<dots> = getattr_Line self (''simple_linestring_'' @ str_int k)"
    using simple_body_other_targets [OF b x Cons.prems(3) kx] .
  finally show ?case .
qed

lemma simple_loop_target:
  assumes "set_simple_linestrings_loop transform simplify tolerance srids self = Inr self'"
    and "distinct srids" and "set srids \<subseteq> set get_srid_list_Line" and "srid \<in> set srids"
  shows "\<exists>self1. set_simple_linestrings_body transform simplify tolerance self srid = Inr self1
           \<and> getattr_Line self' (''simple_linestring_'' @ str_int srid) =
             getattr_Line self1 (''simple_linestring_'' @ str_int srid)"
  using assms
proof (induction srids arbitrary: self)
  case Nil
  then show ?case by simp
next
  case (Cons x xs)
  from Cons.prems(1) obtain self1 where
    b: "set_simple_linestrings_body transform simplify tolerance self x = Inr self1"
    and l: "set_simple_linestrings_loop transform simplify tolerance xs self1 = Inr self'"
    by (auto split: sum.splits)
  from Cons.prems(3) have x: "x \<in> set get_srid_list_Line" and xs: "set xs \<subseteq> set get_srid_list_Line"
    by auto
  from Cons.prems(2) have dxs: "distinct xs" and xxs: "x \<notin> set xs" by auto
  show ?case
  proof (cases "srid = x")
    case True
    have "getattr_Line self' (''simple_linestring_'' @ str_int x) =
          getattr_Line self1 (''simple_linestring_'' @ str_int x)"
      using simple_loop_frame [OF l xs x xxs] .
    with b True show ?thesis by blast
  next
    case False
    with Cons.prems(4) have sxs: "srid \<in> set xs" by simp
    with xs have s: "srid \<in> set get_srid_list_Line" by blast
    from Cons.IH [OF l dxs xs sxs] obtain self2 where
      b2: "set_simple_linestrings_body transform simplify tolerance self1 srid = Inr self2"
      and e2: "getattr_Line self' (''simple_linestring_'' @ str_int srid) =
               getattr_Line self2 (''simple_linestring_'' @ str_int srid)"
      by blast
    have src: "getattr_Line self (''linestring_'' @ str_int srid) =
               getattr_Line self1 (''linestring_'' @ str_int srid)"
      using simple_body_sources [OF b x s] by simp
    from simple_body_depends_on_source [OF b2 s src] e2 show ?thesis by auto
  qed
qed

lemma simple_body_total:
  assumes "\<forall>g s. geom_type (transform g s) = geom_type g" and "srid \<in> set get_srid_list_Line"
  shows "\<exists>self'. set_simple_linestrings_body transform simplify tolerance self srid = Inr self'"
proof -
  have wrap: "\<exists>t. add (MultiLineString []) (transform g srid) = Inr t"
    if "geom_type g = ''LineString''" for g
  proof -
    from that assms(1) have "geom_type (transform g srid) = ''LineString''" by simp
    then obtain cs where "transform g srid = LineString cs"
      by (cases "transform g srid") auto
    then show ?thesis by simp
  qed
  show ?thesis
    using assms(2) wrap unfolding get_srid_list_Line_eq
    by (fastforce simp: set_simple_linestrings_body_def Let_def getattr_Line_lit
        split: option.splits sum.splits)
qed

lemma simple_loop_total:
  assumes "\<And>self srid. srid \<in> set srids \<Longrightarrow>
             \<exists>self'. set_simple_linestrings_body transform simplify tolerance self srid = Inr self'"
  shows "\<exists>self'. set_simple_linestrings_loop transform simplify tolerance srids self = Inr self'"
  using assms
proof (induction srids arbitrary: self)
  case Nil
  then show ?case by simp
next
  case (Cons x xs)
  from Cons.prems [of x self] obtain self1 where
    b: "set_simple_linestrings_body transform simplify tolerance self x = Inr self1" by auto
  from Cons.IH [of self1] Cons.prems obtain self' where
    "set_simple_linestrings_loop transform simplify tolerance xs self1 = Inr self'" by auto
  with b show ?case by simp
qed

lemma simple_body_not_source:
  assumes "srid \<in> set get_srid_list_Line"
    and "getattr_Line self (''linestring_'' @ str_int srid) = Inr source"
    and "not_source source"
  shows "set_simple_linestrings_body transform simplify tolerance self srid =
         Inr (setattr_Line self (''simple_'' @ ''linestring_'' @ str_int srid) None)"
  using assms by (simp add: set_simple_linestrings_body_def)

section \<open>Synchronisation of the projections\<close>

lemma getattr_Stop_lit:
  "getattr_Stop self ''point_4269'' = Inr (point_4269 self)"
  "getattr_Stop self ''point_4326'' = Inr (point_4326 self)"
  "getattr_Stop self ''point_900913'' = Inr (point_900913 self)"
  by (simp_all add: getattr_Stop_def)

lemma setattr_Stop_lit:
  "setattr_Stop self ''point_4269'' v = self\<lparr>point_4269 := v\<rparr>"
  "setattr_Stop self ''point_4326'' v = self\<lparr>point_4326 := v\<rparr>"
  "setattr_Stop self ''point_900913'' v = self\<lparr>point_900913 := v\<rparr>"
  by (simp_all add: setattr_Stop_def)

lemma set_linestrings_Some:
  assumes "canonical_srid \<in> set get_srid_list_Line"
    and "getattr_Line self (''linestring_'' @ str_int canonical_srid) = Inr (Some g)"
  shows "\<exists>self'. set_linestrings transform self canonical_srid = Inr self'
     \<and> (\<forall>srid \<in> set get_srid_list_Line. srid \<noteq> canonical_srid \<longrightarrow>
           getattr_Line self' (''linestring_'' @ str_int srid) = Inr (Some (transform g srid)))
     \<and> getattr_Line self' (''linestring_'' @ str_int canonical_srid) = Inr (Some g)
     \<and> set_linestrings transform self' canonical_srid = Inr self'"
  using assms unfolding get_srid_list_Line_eq
  by (auto simp: set_linestrings_def get_srid_list_Line_eq getattr_Line_lit setattr_Line_lit)

lemma set_point_Some:
  assumes "canonical_srid \<in> set get_srid_list_Stop"
    and "getattr_Stop self (''point_'' @ str_int canonical_srid) = Inr (Some g)"
  shows "\<exists>self'. set_point transform self canonical_srid = Inr self'
     \<and> (\<forall>srid \<in> set get_srid_list_Stop. srid \<noteq> canonical_srid \<longrightarrow>
           getattr_Stop self' (''point_'' @ str_int srid) = Inr (Some (transform g srid)))
     \<and> getattr_Stop self' (''point_'' @ str_int canonical_srid) = Inr (Some g)
     \<and> set_point transform self' canonical_srid = Inr self'"
  using assms unfolding get_srid_list_Stop_eq
  by (auto simp: set_point_def get_srid_list_Stop_eq getattr_Stop_lit setattr_Stop_lit)

text \<open>
  Claim C3. When the canonical SRID is one of the model's SRIDs and the canonical field holds a
  geometry, \<^verbatim>\<open>set_linestrings\<close> (and \<^verbatim>\<open>set_point\<close> for a stop) returns, every other
  field of the list holds the canonical geometry transformed into that field's SRID, and the
  canonical field holds what it held.
\<close>
theorem sync_reprojects_canonical:
  "(canonical_srid \<in> set get_srid_list_Line \<longrightarrow>
    getattr_Line line (''linestring_'' @ str_int canonical_srid) = Inr (Some g) \<longrightarrow>
      (\<exists>line'. set_linestrings transform line canonical_srid = Inr line'
         \<and> (\<forall>srid \<in> set get_srid_list_Line. srid \<noteq> canonical_srid \<longrightarrow>
               getattr_Line line' (''linestring_'' @ str_int srid) = Inr (Some (transform g srid)))
         \<and> getattr_Line line' (''linestring_'' @ str_int canonical_srid) = Inr (Some g)))
   \<and> (canonical_srid' \<in> set get_srid_list_Stop \<longrightarrow>
    getattr_Stop stop (''point_'' @ str_int canonical_srid') = Inr (Some p) \<longrightarrow>
      (\<exists>stop'. set_point transform stop canonical_srid' = Inr stop'
         \<and> (\<forall>srid \<in> set get_srid_list_Stop. srid \<noteq> canonical_srid' \<longrightarrow>
               getattr_Stop stop' (''point_'' @ str_int srid) = Inr (Some (transform p srid)))
         \<and> getattr_Stop stop' (''point_'' @ str_int canonical_srid') = Inr (Some p)))"
proof (intro conjI impI)
  assume "canonical_srid \<in> set get_srid_list_Line"
    and "getattr_Line line (''linestring_'' @ str_int canonical_srid) = Inr (Some g)"
  from set_linestrings_Some [OF this, of transform]
  show "\<exists>line'. set_linestrings transform line canonical_srid = Inr line'
         \<and> (\<forall>srid \<in> set get_srid_list_Line. srid \<noteq> canonical_srid \<longrightarrow>
               getattr_Line line' (''linestring_'' @ str_int srid) = Inr (Some (transform g srid)))
         \<and> getattr_Line line' (''linestring_'' @ str_int canonical_srid) = Inr (Some g)"
    by blast
next
  assume "canonical_srid' \<in> set get_srid_list_Stop"
    and "getattr_Stop stop (''point_'' @ str_int canonical_srid') = Inr (Some p)"
  from set_point_Some [OF this, of transform]
  show "\<exists>stop'. set_point transform stop canonical_srid' = Inr stop'
         \<and> (\<forall>srid \<in> set get_srid_list_Stop. srid \<noteq> canonical_srid' \<longrightarrow>
               getattr_Stop stop' (''point_'' @ str_int srid) = Inr (Some (transform p srid)))
         \<and> getattr_Stop stop' (''point_'' @ str_int canonical_srid') = Inr (Some p)"
    by blast
qed

theorem sync_reprojects_canonical_witness:
  "2229 \<in> set get_srid_list_Line
   \<and> getattr_Line example_line (''linestring_'' @ str_int 2229) = Inr (Some (MultiLineString [[0, 1], [1, 2]]))
   \<and> 4269 \<in> set get_srid_list_Stop
   \<and> getattr_Stop example_stop (''point_'' @ str_int 4269) = Inr (Some (Point 40))
   \<and> (\<exists>line'. set_linestrings example_transform example_line 2229 = Inr line'
        \<and> linestring_4269 line' = Some (MultiLineString [[4269, 4270], [4270, 4271]])
        \<and> linestring_4326 line' = Some (MultiLineString [[4326, 4327], [4327, 4328]])
        \<and> linestring_900913 line' = Some (MultiLineString [[900913, 900914], [900914, 900915]])
        \<and> linestring_2229 line' = Some (MultiLineString [[0, 1], [1, 2]]))
   \<and> (\<exists>stop'. set_point example_transform example_stop 4269 = Inr stop'
        \<and> point_4326 stop' = Some (Point 4366)
        \<and> point_900913 stop' = Some (Point 900953)
        \<and> point_4269 stop' = Some (Point 40))"
proof -
  have h1: "2229 \<in> set get_srid_list_Line" by (simp add: get_srid_list_Line_eq)
  have h2: "getattr_Line example_line (''linestring_'' @ str_int 2229) = Inr (Some (MultiLineString [[0, 1], [1, 2]]))"
    by (simp add: getattr_Line_lit example_line_def)
  have h3: "4269 \<in> set get_srid_list_Stop" by (simp add: get_srid_list_Stop_eq)
  have h4: "getattr_Stop example_stop (''point_'' @ str_int 4269) = Inr (Some (Point 40))"
    by (simp add: getattr_Stop_lit example_stop_def)
  from sync_reprojects_canonical [of 2229 example_line "MultiLineString [[0, 1], [1, 2]]"
      example_transform 4269 example_stop "Point 40"] h1 h2 h3 h4
  show ?thesis
    by (simp add: get_srid_list_Line_eq get_srid_list_Stop_eq getattr_Line_lit getattr_Stop_lit)
qed

text \<open>
  Claim C8. With a canonical SRID that is not one of the model's SRIDs, \<^verbatim>\<open>set_linestrings\<close>
  and \<^verbatim>\<open>set_point\<close> raise \<open>ValueError\<close> (the specification's \<open>ConfigurationError\<close>)
  and leave the object as it was.
\<close>
theorem sync_rejects_unknown_srid:
  "(canonical_srid \<notin> set get_srid_list_Line \<longrightarrow>
      set_linestrings transform line canonical_srid = Inl (ValueError, line))
   \<and> (canonical_srid \<notin> set get_srid_list_Stop \<longrightarrow>
      set_point transform stop canonical_srid = Inl (ValueError, stop))"
  by (simp add: set_linestrings_def set_point_def)

theorem sync_rejects_unknown_srid_witness:
  "3857 \<notin> set get_srid_list_Line \<and> 3857 \<notin> set get_srid_list_Stop
   \<and> set_linestrings example_transform example_line 3857 = Inl (ValueError, example_line)
   \<and> set_point example_transform example_stop 3857 = Inl (ValueError, example_stop)"
proof -
  have h1: "3857 \<notin> set get_srid_list_Line" by (simp add: get_srid_list_Line_eq)
  have h2: "3857 \<notin> set get_srid_list_Stop" by (simp add: get_srid_list_Stop_eq)
  from sync_rejects_unknown_srid [of 3857 example_transform example_line example_stop] h1 h2
  show ?thesis by simp
qed

text \<open>
  Claim C9. Sync is idempotent: with a canonical geometry present, running
  \<^verbatim>\<open>set_linestrings\<close> (or \<^verbatim>\<open>set_point\<close>) on its own result with the same canonical SRID
  returns that result unchanged.
\<close>
theorem sync_idempotent:
  "(canonical_srid \<in> set get_srid_list_Line \<longrightarrow>
    getattr_Line line (''linestring_'' @ str_int canonical_srid) = Inr (Some g) \<longrightarrow>
      (\<exists>line'. set_linestrings transform line canonical_srid = Inr line'
         \<and> set_linestrings transform line' canonical_srid = Inr line'))
   \<and> (canonical_srid' \<in> set get_srid_list_Stop \<longrightarrow>
    getattr_Stop stop (''point_'' @ str_int canonical_srid') = Inr (Some p) \<longrightarrow>
      (\<exists>stop'. set_point transform stop canonical_srid' = Inr stop'
         \<and> set_point transform stop' canonical_srid' = Inr stop'))"
proof (intro conjI impI)
  assume "canonical_srid \<in> set get_srid_list_Line"
    and "getattr_Line line (''linestring_'' @ str_int canonical_srid) = Inr (Some g)"
  from set_linestrings_Some [OF this, of transform]
  show "\<exists>line'. set_linestrings transform line canonical_srid = Inr line'
         \<and> set_linestrings transform line' canonical_srid = Inr line'"
    by blast
next
  assume "canonical_srid' \<in> set get_srid_list_Stop"
    and "getattr_Stop stop (''point_'' @ str_int canonical_srid') = Inr (Some p)"
  from set_point_Some [OF this, of transform]
  show "\<exists>stop'. set_point transform stop canonical_srid' = Inr stop'
         \<and> set_point transform stop' canonical_srid' = Inr stop'"
    by blast
qed

theorem sync_idempotent_witness:
  "2229 \<in> set get_srid_list_Line
   \<and> getattr_Line example_line (''linestring_'' @ str_int 2229) = Inr (Some (MultiLineString [[0, 1], [1, 2]]))
   \<and> 900913 \<in> set get_srid_list_Stop
   \<and> getattr_Stop example_stop (''point_'' @ str_int 900913) = Inr (Some (Point 3))
   \<and> (\<exists>line'. set_linestrings example_transform example_line 2229 = Inr line'
        \<and> set_linestrings example_transform line' 2229 = Inr line')
   \<and> (\<exists>stop'. set_point example_transform example_stop 900913 = Inr stop'
        \<and> set_point example_transform stop' 900913 = Inr stop')"
proof -
  have h1: "2229 \<in> set get_srid_list_Line" by (simp add: get_srid_list_Line_eq)
  have h2: "getattr_Line example_line (''linestring_'' @ str_int 2229) = Inr (Some (MultiLineString [[0, 1], [1, 2]]))"
    by (simp add: getattr_Line_lit example_line_def)
  have h3: "900913 \<in> set get_srid_list_Stop" by (simp add: get_srid_list_Stop_eq)
  have h4: "getattr_Stop example_stop (''point_'' @ str_int 900913) = Inr (Some (Point 3))"
    by (simp add: getattr_Stop_lit example_stop_def)
  from sync_idempotent [of 2229 example_line "MultiLineString [[0, 1], [1, 2]]"
      example_transform 900913 example_stop "Point 3"] h1 h2 h3 h4
  show ?thesis by blast
qed




section \<open>Simplification\<close>

lemma example_transform_geom_type: "geom_type (example_transform g s) = geom_type g"
  by (cases g) simp_all

text \<open>
  Claim C1. For an SRID of the line's list whose source field holds a non-empty geometry that
  the simplification turns into a single \<open>LineString\<close>: when
  \<^verbatim>\<open>set_simple_linestrings\<close> returns, the simplified field of that SRID holds a
  \<open>MultiLineString\<close> whose one part is the simplified line transformed back, so the
  field's geometry type is still multi-part. The method does return whenever the transform
  keeps the type of the geometry it is given.
\<close>
theorem simplify_rewraps_single_line:
  assumes "srid \<in> set get_srid_list_Line"
    and "getattr_Line self (''linestring_'' @ str_int srid) = Inr (Some src)"
    and "bool_geom src"
    and "geom_type (simplify (if srid \<noteq> 900913 then transform src 900913 else src) tolerance True)
           = ''LineString''"
  shows "((\<forall>g s. geom_type (transform g s) = geom_type g) \<longrightarrow>
            (\<exists>self'. set_simple_linestrings transform simplify tolerance self = Inr self'))
       \<and> (\<forall>self'. set_simple_linestrings transform simplify tolerance self = Inr self' \<longrightarrow>
            (\<exists>cs. transform
                     (simplify (if srid \<noteq> 900913 then transform src 900913 else src) tolerance True)
                     srid = LineString cs
                 \<and> getattr_Line self' (''simple_'' @ ''linestring_'' @ str_int srid) =
                     Inr (Some (MultiLineString [cs]))
                 \<and> geom_type (MultiLineString [cs]) = ''MultiLineString''))"
proof (intro conjI impI allI)
  assume "\<forall>g s. geom_type (transform g s) = geom_type g"
  then have "\<exists>self'. set_simple_linestrings_body transform simplify tolerance a k = Inr self'"
    if "k \<in> set get_srid_list_Line" for a k
    using simple_body_total [of transform k simplify tolerance a] that by simp
  from simple_loop_total [of get_srid_list_Line transform simplify tolerance self, OF this]
  show "\<exists>self'. set_simple_linestrings transform simplify tolerance self = Inr self'"
    by (simp add: set_simple_linestrings_def)
next
  fix self'
  assume run: "set_simple_linestrings transform simplify tolerance self = Inr self'"
  let ?simple = "simplify (if srid \<noteq> 900913 then transform src 900913 else src) tolerance True"
  from run have l: "set_simple_linestrings_loop transform simplify tolerance get_srid_list_Line self
      = Inr self'"
    by (simp add: set_simple_linestrings_def)
  have d: "distinct get_srid_list_Line" by (simp add: get_srid_list_Line_eq)
  from simple_loop_target [OF l d subset_refl assms(1)] obtain self1 where
    b: "set_simple_linestrings_body transform simplify tolerance self srid = Inr self1"
    and e: "getattr_Line self' (''simple_linestring_'' @ str_int srid) =
            getattr_Line self1 (''simple_linestring_'' @ str_int srid)"
    by blast
  from b assms(2,3,4) obtain t where
    a: "add (MultiLineString []) (transform ?simple srid) = Inr t"
    and s1: "self1 = setattr_Line self (''simple_'' @ ''linestring_'' @ str_int srid) (Some t)"
    by (auto simp: set_simple_linestrings_body_def not_source_def Let_def split: sum.splits)
  from add_shell [OF a] obtain cs where
    cs: "transform ?simple srid = LineString cs" and t: "t = MultiLineString [cs]"
    by blast
  have "getattr_Line self1 (''simple_linestring_'' @ str_int srid) = Inr (Some t)"
    using assms(1) unfolding s1 get_srid_list_Line_eq
    by (auto simp: getattr_Line_lit setattr_Line_lit)
  with e t cs
  show "\<exists>cs. transform ?simple srid = LineString cs
          \<and> getattr_Line self' (''simple_'' @ ''linestring_'' @ str_int srid) =
              Inr (Some (MultiLineString [cs]))
          \<and> geom_type (MultiLineString [cs]) = ''MultiLineString''"
    by simp
qed

theorem simplify_rewraps_single_line_witness:
  "2229 \<in> set get_srid_list_Line
   \<and> getattr_Line example_line (''linestring_'' @ str_int 2229) =
       Inr (Some (MultiLineString [[0, 1], [1, 2]]))
   \<and> bool_geom (MultiLineString [[0, 1], [1, 2 :: int]])
   \<and> geom_type (example_simplify
        (if (2229 :: int) \<noteq> 900913 then example_transform (MultiLineString [[0, 1], [1, 2]]) 900913
         else MultiLineString [[0, 1], [1, 2]]) 500 True) = ''LineString''
   \<and> (\<exists>self'. set_simple_linestrings example_transform example_simplify 500 example_line = Inr self'
        \<and> getattr_Line self' ''simple_linestring_2229'' =
            Inr (Some (MultiLineString [[903142, 903143, 903143, 903144]])))"
proof -
  have h1: "2229 \<in> set get_srid_list_Line" by (simp add: get_srid_list_Line_eq)
  have h2: "getattr_Line example_line (''linestring_'' @ str_int 2229) =
       Inr (Some (MultiLineString [[0, 1], [1, 2]]))"
    by (simp add: getattr_Line_lit example_line_def)
  have h3: "bool_geom (MultiLineString [[0, 1], [1, 2 :: int]])" by simp
  have h4: "geom_type (example_simplify
        (if (2229 :: int) \<noteq> 900913 then example_transform (MultiLineString [[0, 1], [1, 2]]) 900913
         else MultiLineString [[0, 1], [1, 2]]) 500 True) = ''LineString''"
    by simp
  note t = simplify_rewraps_single_line [where srid = 2229 and self = example_line
      and src = "MultiLineString [[0, 1], [1, 2]]" and simplify = example_simplify
      and transform = example_transform and tolerance = 500, OF h1 h2 h3 h4]
  from t obtain self' where
    r: "set_simple_linestrings example_transform example_simplify 500 example_line = Inr self'"
    using example_transform_geom_type by blast
  with t obtain cs where
    "example_transform (example_simplify
        (if (2229 :: int) \<noteq> 900913 then example_transform (MultiLineString [[0, 1], [1, 2]]) 900913
         else MultiLineString [[0, 1], [1, 2]]) 500 True) 2229 = LineString cs"
    and "getattr_Line self' (''simple_'' @ ''linestring_'' @ str_int 2229) =
           Inr (Some (MultiLineString [cs]))"
    by blast
  then have "getattr_Line self' ''simple_linestring_2229'' =
      Inr (Some (MultiLineString [[903142, 903143, 903143, 903144]]))"
    by auto
  with r h1 h2 h3 h4 show ?thesis by blast
qed

text \<open>
  Claim C7. For an SRID of the line's list whose source field is \<^verbatim>\<open>None\<close> or an empty
  geometry, the loop body does not raise and stores \<^verbatim>\<open>None\<close> in the simplified field,
  the loop goes on with the remaining SRIDs, and the field is \<^verbatim>\<open>None\<close> when
  \<^verbatim>\<open>set_simple_linestrings\<close> returns; when every source field is empty the method
  returns.
\<close>
theorem simplify_skips_empty_source:
  assumes "srid \<in> set get_srid_list_Line"
    and "getattr_Line self (''linestring_'' @ str_int srid) = Inr source"
    and "not_source source"
  shows "set_simple_linestrings_body transform simplify tolerance self srid =
           Inr (setattr_Line self (''simple_'' @ ''linestring_'' @ str_int srid) None)
       \<and> (\<forall>rest. set_simple_linestrings_loop transform simplify tolerance (srid # rest) self =
             set_simple_linestrings_loop transform simplify tolerance rest
               (setattr_Line self (''simple_'' @ ''linestring_'' @ str_int srid) None))
       \<and> (\<forall>self'. set_simple_linestrings transform simplify tolerance self = Inr self' \<longrightarrow>
             getattr_Line self' (''simple_'' @ ''linestring_'' @ str_int srid) = Inr None)
       \<and> ((\<forall>k \<in> set get_srid_list_Line.
               \<exists>s. getattr_Line self (''linestring_'' @ str_int k) = Inr s \<and> not_source s) \<longrightarrow>
            (\<exists>self'. set_simple_linestrings transform simplify tolerance self = Inr self'))"
proof (intro conjI impI allI)
  show b: "set_simple_linestrings_body transform simplify tolerance self srid =
           Inr (setattr_Line self (''simple_'' @ ''linestring_'' @ str_int srid) None)"
    using simple_body_not_source [OF assms] .
  show "set_simple_linestrings_loop transform simplify tolerance (srid # rest) self =
        set_simple_linestrings_loop transform simplify tolerance rest
          (setattr_Line self (''simple_'' @ ''linestring_'' @ str_int srid) None)" for rest
    using b by simp
  show "getattr_Line self' (''simple_'' @ ''linestring_'' @ str_int srid) = Inr None"
    if run: "set_simple_linestrings transform simplify tolerance self = Inr self'" for self'
  proof -
    from run have l: "set_simple_linestrings_loop transform simplify tolerance get_srid_list_Line
        self = Inr self'"
      by (simp add: set_simple_linestrings_def)
    have d: "distinct get_srid_list_Line" by (simp add: get_srid_list_Line_eq)
    from simple_loop_target [OF l d subset_refl assms(1)] b
    have "getattr_Line self' (''simple_linestring_'' @ str_int srid) =
          getattr_Line (setattr_Line self (''simple_'' @ ''linestring_'' @ str_int srid) None)
            (''simple_linestring_'' @ str_int srid)"
      by auto
    also have "\<dots> = Inr None"
      using assms(1) unfolding get_srid_list_Line_eq
      by (auto simp: getattr_Line_lit setattr_Line_lit)
    finally show ?thesis by simp
  qed
  show "\<exists>self'. set_simple_linestrings transform simplify tolerance self = Inr self'"
    if all: "\<forall>k \<in> set get_srid_list_Line.
               \<exists>s. getattr_Line self (''linestring_'' @ str_int k) = Inr s \<and> not_source s"
  proof -
    have step: "\<exists>self'. set_simple_linestrings_loop transform simplify tolerance srids a = Inr self'"
      if "set srids \<subseteq> set get_srid_list_Line"
        and "\<forall>k \<in> set get_srid_list_Line.
               getattr_Line a (''linestring_'' @ str_int k) = getattr_Line self (''linestring_'' @ str_int k)"
      for srids a
      using that
    proof (induction srids arbitrary: a)
      case Nil
      then show ?case by simp
    next
      case (Cons x xs)
      from Cons.prems have x: "x \<in> set get_srid_list_Line" and xs: "set xs \<subseteq> set get_srid_list_Line"
        by auto
      from all x Cons.prems(2) obtain s where
        "getattr_Line a (''linestring_'' @ str_int x) = Inr s" and "not_source s"
        by auto
      from simple_body_not_source [OF x this]
      have bx: "set_simple_linestrings_body transform simplify tolerance a x =
          Inr (setattr_Line a (''simple_'' @ ''linestring_'' @ str_int x) None)" .
      have "\<forall>k \<in> set get_srid_list_Line.
          getattr_Line (setattr_Line a (''simple_'' @ ''linestring_'' @ str_int x) None)
            (''linestring_'' @ str_int k) = getattr_Line self (''linestring_'' @ str_int k)"
        using simple_body_sources [OF bx x] Cons.prems(2) by simp
      from Cons.IH [OF xs this] bx show ?case by simp
    qed
    from step [of get_srid_list_Line self] show ?thesis
      by (simp add: set_simple_linestrings_def)
  qed
qed

theorem simplify_skips_empty_source_witness:
  "4326 \<in> set get_srid_list_Line
   \<and> getattr_Line example_line (''linestring_'' @ str_int 4326) = Inr (Some (MultiLineString []))
   \<and> not_source (Some (MultiLineString [] :: int geom))
   \<and> set_simple_linestrings_body example_transform example_simplify 500 example_line 4326 =
       Inr (example_line\<lparr>simple_linestring_4326 := None\<rparr>)
   \<and> (\<exists>self'. set_simple_linestrings example_transform example_simplify 500 example_line = Inr self'
        \<and> simple_linestring_4326 self' = None
        \<and> simple_linestring_900913 self' =
            Some (MultiLineString [[900918, 900919], [900920, 900921], [900922, 900923]]))"
proof -
  have h1: "4326 \<in> set get_srid_list_Line" by (simp add: get_srid_list_Line_eq)
  have h2: "getattr_Line example_line (''linestring_'' @ str_int 4326) = Inr (Some (MultiLineString []))"
    by (simp add: getattr_Line_lit example_line_def)
  have h3: "not_source (Some (MultiLineString [] :: int geom))" by (simp add: not_source_def)
  note t = simplify_skips_empty_source [OF h1 h2 h3, of example_transform example_simplify 500]
  have r: "\<exists>self'. set_simple_linestrings example_transform example_simplify 500 example_line = Inr self'
        \<and> simple_linestring_900913 self' =
            Some (MultiLineString [[900918, 900919], [900920, 900921], [900922, 900923]])"
    by (simp add: set_simple_linestrings_def get_srid_list_Line_eq set_simple_linestrings_body_def
        getattr_Line_lit setattr_Line_lit example_line_def not_source_def)
  then obtain self' where
    r1: "set_simple_linestrings example_transform example_simplify 500 example_line = Inr self'"
    and r2: "simple_linestring_900913 self' =
            Some (MultiLineString [[900918, 900919], [900920, 900921], [900922, 900923]])"
    by blast
  from t r1 have "getattr_Line self' (''simple_'' @ ''linestring_'' @ str_int 4326) = Inr None"
    by blast
  then have r3: "simple_linestring_4326 self' = None" by (simp add: getattr_Line_lit)
  from t have r4: "set_simple_linestrings_body example_transform example_simplify 500 example_line 4326 =
       Inr (example_line\<lparr>simple_linestring_4326 := None\<rparr>)"
    by (simp add: setattr_Line_lit)
  from h1 h2 h3 r1 r2 r3 r4 show ?thesis by blast
qed

section \<open>Consolidation of duplicated lines\<close>

lemma fold_delete_Line_objects:
  "Line_objects (fold delete_Line ds st) =
   filter (\<lambda>l. line_pk l \<notin> line_pk ` set ds) (Line_objects st)"
proof (induction ds arbitrary: st)
  case Nil
  then show ?case by simp
next
  case (Cons d ds)
  have "Line_objects (fold delete_Line (d # ds) st) =
        filter (\<lambda>l. line_pk l \<notin> line_pk ` set ds) (Line_objects (delete_Line d st))"
    using Cons.IH [of "delete_Line d st"] by simp
  also have "\<dots> = filter (\<lambda>l. line_pk l \<notin> line_pk ` set (d # ds)) (Line_objects st)"
    by (auto simp: delete_Line_def intro: filter_cong)
  finally show ?case .
qed

lemma fold_delete_Line_next_id:
  "Line_next_id (fold delete_Line ds st) = Line_next_id st"
  by (induction ds arbitrary: st) (simp_all add: delete_Line_def)

lemma Line_keys_okD:
  assumes "Line_keys_ok st"
  shows "distinct (map line_pk (Line_objects st))"
    and "l \<in> set (Line_objects st) \<Longrightarrow> line_pk l < Line_next_id st"
  using assms by (auto simp: Line_keys_ok_def list_all_iff)

lemma dupes_body_consolidates:
  assumes ok: "Line_keys_ok st"
    and ne: "Line_objects_filter st n \<noteq> []"
    and u: "unionagg (map linestring_2229 (Line_objects_filter st n)) = Inr u"
    and acc: "MultiLineStringField_accepts u"
  shows "\<exists>st2. fix_line_dupes_body unionagg st n = Inr st2
      \<and> Line_objects st2 =
          filter (\<lambda>l. line_name l \<noteq> n) (Line_objects st) @ [new_Line (Line_next_id st) n u]
      \<and> Line_next_id st2 = Suc (Line_next_id st)"
proof -
  from ne obtain first others where fo: "Line_objects_filter st n = first # others"
    by (cases "Line_objects_filter st n") auto
  then have "first \<in> set (Line_objects_filter st n)" by simp
  then have fn: "line_name first = n" by (simp add: Line_objects_filter_def)
  let ?new = "new_Line (Line_next_id st) n u"
  let ?st1 = "st\<lparr>Line_objects := Line_objects st @ [?new], Line_next_id := Suc (Line_next_id st)\<rparr>"
  let ?doomed = "filter (\<lambda>l. line_pk l \<noteq> line_pk ?new) (Line_objects_filter ?st1 n)"
  have body: "fix_line_dupes_body unionagg st n = Inr (fold delete_Line ?doomed ?st1)"
    using u fo fn acc by (simp add: fix_line_dupes_body_def Line_objects_create_def Let_def)
  have pk_new: "line_pk ?new = Line_next_id st" by (simp add: new_Line_def)
  have below: "line_pk l \<noteq> Line_next_id st" if "l \<in> set (Line_objects st)" for l
    using Line_keys_okD(2) [OF ok that] by simp
  have doomed: "?doomed = Line_objects_filter st n"
    using below by (auto simp: Line_objects_filter_def pk_new intro: filter_True filter_cong)
  have inj: "inj_on line_pk (set (Line_objects st))"
    using Line_keys_okD(1) [OF ok] by (simp add: distinct_map)
  have keep: "(line_pk l \<notin> line_pk ` set (Line_objects_filter st n)) = (line_name l \<noteq> n)"
    if "l \<in> set (Line_objects st)" for l
  proof
    assume "line_pk l \<notin> line_pk ` set (Line_objects_filter st n)"
    with that show "line_name l \<noteq> n" by (auto simp: Line_objects_filter_def)
  next
    assume nn: "line_name l \<noteq> n"
    show "line_pk l \<notin> line_pk ` set (Line_objects_filter st n)"
    proof
      assume "line_pk l \<in> line_pk ` set (Line_objects_filter st n)"
      then obtain x where x: "x \<in> set (Line_objects st)" "line_name x = n" "line_pk x = line_pk l"
        by (auto simp: Line_objects_filter_def)
      with inj that have "x = l" by (auto dest: inj_onD)
      with x nn show False by simp
    qed
  qed
  have newkeep: "line_pk ?new \<notin> line_pk ` set (Line_objects_filter st n)"
    using below by (fastforce simp: pk_new Line_objects_filter_def)
  have "Line_objects (fold delete_Line ?doomed ?st1) =
        filter (\<lambda>l. line_pk l \<notin> line_pk ` set (Line_objects_filter st n)) (Line_objects st @ [?new])"
    unfolding fold_delete_Line_objects doomed by simp
  also have "\<dots> = filter (\<lambda>l. line_name l \<noteq> n) (Line_objects st) @ [?new]"
  proof -
    have "filter (\<lambda>l. line_pk l \<notin> line_pk ` set (Line_objects_filter st n)) (Line_objects st) =
          filter (\<lambda>l. line_name l \<noteq> n) (Line_objects st)"
      by (rule filter_cong [OF refl]) (simp add: keep)
    with newkeep show ?thesis by simp
  qed
  finally have objs: "Line_objects (fold delete_Line ?doomed ?st1) =
      filter (\<lambda>l. line_name l \<noteq> n) (Line_objects st) @ [?new]" .
  have nxt: "Line_next_id (fold delete_Line ?doomed ?st1) = Suc (Line_next_id st)"
    by (simp add: fold_delete_Line_next_id)
  from body objs nxt show ?thesis by blast
qed

lemma dupes_body_raises:
  assumes "unionagg (map linestring_2229 (Line_objects_filter st n)) = Inl e"
  shows "fix_line_dupes_body unionagg st n = Inl (e, st)"
  using assms by (simp add: fix_line_dupes_body_def)

lemma dupes_body_type_error:
  assumes "Line_objects_filter st n \<noteq> []"
    and "unionagg (map linestring_2229 (Line_objects_filter st n)) = Inr u"
    and "\<not> MultiLineStringField_accepts u"
  shows "fix_line_dupes_body unionagg st n = Inl (TypeError, st)"
  using assms
  by (cases "Line_objects_filter st n")
    (simp_all add: fix_line_dupes_body_def Line_objects_create_def)

lemma dupes_consolidated_store:
  assumes ok: "Line_keys_ok st"
    and objs: "Line_objects st2 =
          filter (\<lambda>l. line_name l \<noteq> n) (Line_objects st) @ [new_Line (Line_next_id st) n u]"
    and nxt: "Line_next_id st2 = Suc (Line_next_id st)"
  shows "Line_keys_ok st2"
    and "Line_objects_filter st2 n = [new_Line (Line_next_id st) n u]"
    and "m \<noteq> n \<Longrightarrow> Line_objects_filter st2 m = Line_objects_filter st m"
proof -
  have below: "line_pk l < Line_next_id st" if "l \<in> set (Line_objects st)" for l
    using Line_keys_okD(2) [OF ok that] .
  have d: "distinct (map line_pk (Line_objects st))" using Line_keys_okD(1) [OF ok] .
  have "distinct (map line_pk (filter (\<lambda>l. line_name l \<noteq> n) (Line_objects st)))"
    using d by (rule distinct_map_filter)
  moreover have "Line_next_id st \<notin> line_pk ` set (filter (\<lambda>l. line_name l \<noteq> n) (Line_objects st))"
    using below by fastforce
  ultimately show "Line_keys_ok st2"
    using below by (auto simp: Line_keys_ok_def objs nxt list_all_iff new_Line_def less_Suc_eq)
  show "Line_objects_filter st2 n = [new_Line (Line_next_id st) n u]"
    by (simp add: Line_objects_filter_def objs new_Line_def)
  show "Line_objects_filter st2 m = Line_objects_filter st m" if "m \<noteq> n"
    using that by (auto simp: Line_objects_filter_def objs new_Line_def intro: filter_cong)
qed

lemma dupes_loop_consolidates:
  assumes "Line_keys_ok st" and "distinct ns"
    and "\<forall>m \<in> set ns. Line_objects_filter st m \<noteq> []
          \<and> (\<exists>u. unionagg (map linestring_2229 (Line_objects_filter st m)) = Inr u
                 \<and> MultiLineStringField_accepts u)"
  shows "\<exists>st'. fix_line_dupes_loop unionagg ns st = Inr st'
      \<and> Line_keys_ok st' \<and> Line_next_id st \<le> Line_next_id st'
      \<and> (\<forall>m. m \<notin> set ns \<longrightarrow> Line_objects_filter st' m = Line_objects_filter st m)
      \<and> (\<forall>m \<in> set ns. \<exists>k u. Line_next_id st \<le> k
            \<and> unionagg (map linestring_2229 (Line_objects_filter st m)) = Inr u
            \<and> Line_objects_filter st' m = [new_Line k m u])"
  using assms
proof (induction ns arbitrary: st)
  case Nil
  then show ?case by simp
next
  case (Cons n ns)
  from Cons.prems(3) obtain u where
    ne: "Line_objects_filter st n \<noteq> []"
    and u: "unionagg (map linestring_2229 (Line_objects_filter st n)) = Inr u"
    and acc: "MultiLineStringField_accepts u"
    by auto
  from dupes_body_consolidates [where unionagg = unionagg, OF Cons.prems(1) ne u acc]
  obtain st2 where
    b: "fix_line_dupes_body unionagg st n = Inr st2"
    and objs: "Line_objects st2 =
          filter (\<lambda>l. line_name l \<noteq> n) (Line_objects st) @ [new_Line (Line_next_id st) n u]"
    and nxt: "Line_next_id st2 = Suc (Line_next_id st)"
    by blast
  note c = dupes_consolidated_store [OF Cons.prems(1) objs nxt]
  from Cons.prems(2) have nns: "n \<notin> set ns" and dns: "distinct ns" by auto
  have same: "Line_objects_filter st2 m = Line_objects_filter st m" if "m \<in> set ns" for m
    using c(3) [of m] that nns by auto
  have pre2: "\<forall>m \<in> set ns. Line_objects_filter st2 m \<noteq> []
          \<and> (\<exists>u. unionagg (map linestring_2229 (Line_objects_filter st2 m)) = Inr u
                 \<and> MultiLineStringField_accepts u)"
    using Cons.prems(3) same by simp
  from Cons.IH [OF c(1) dns pre2] obtain st' where
    l: "fix_line_dupes_loop unionagg ns st2 = Inr st'"
    and ok': "Line_keys_ok st'"
    and le: "Line_next_id st2 \<le> Line_next_id st'"
    and frame: "\<forall>m. m \<notin> set ns \<longrightarrow> Line_objects_filter st' m = Line_objects_filter st2 m"
    and merged: "\<forall>m \<in> set ns. \<exists>k u. Line_next_id st2 \<le> k
            \<and> unionagg (map linestring_2229 (Line_objects_filter st2 m)) = Inr u
            \<and> Line_objects_filter st' m = [new_Line k m u]"
    by blast
  have r1: "fix_line_dupes_loop unionagg (n # ns) st = Inr st'"
    using b l by simp
  have r2: "Line_next_id st \<le> Line_next_id st'"
    using le nxt by simp
  have r3: "\<forall>m. m \<notin> set (n # ns) \<longrightarrow> Line_objects_filter st' m = Line_objects_filter st m"
    using frame c(3) by simp
  have r4: "\<exists>k u. Line_next_id st \<le> k
            \<and> unionagg (map linestring_2229 (Line_objects_filter st m)) = Inr u
            \<and> Line_objects_filter st' m = [new_Line k m u]" if m: "m \<in> set (n # ns)" for m
  proof (cases "m = n")
    case True
    from frame nns c(2) have "Line_objects_filter st' n = [new_Line (Line_next_id st) n u]"
      by simp
    with u True show ?thesis by blast
  next
    case False
    with m have mns: "m \<in> set ns" by simp
    with merged obtain k v where
      "Line_next_id st2 \<le> k"
      "unionagg (map linestring_2229 (Line_objects_filter st2 m)) = Inr v"
      "Line_objects_filter st' m = [new_Line k m v]"
      by blast
    with same [OF mns] nxt show ?thesis
      by (intro exI [of _ k] exI [of _ v]) simp
  qed
  from r1 ok' r2 r3 r4 show ?case by blast
qed

lemma dupes_loop_append:
  "fix_line_dupes_loop unionagg (xs @ ys) st =
     (case fix_line_dupes_loop unionagg xs st of
        Inl e \<Rightarrow> Inl e
      | Inr st1 \<Rightarrow> fix_line_dupes_loop unionagg ys st1)"
  by (induction xs arbitrary: st) (simp_all split: sum.splits)

lemma distinct_dupe_list: "distinct (dupe_list collate st)"
  by (simp add: dupe_list_def)

lemma set_dupe_list: "set (dupe_list collate st) = {n. 1 < length (Line_objects_filter st n)}"
proof -
  have "n \<in> line_name ` set (Line_objects st)" if "1 < length (Line_objects_filter st n)" for n
  proof -
    from that have "Line_objects_filter st n \<noteq> []" by auto
    then obtain l where "l \<in> set (Line_objects_filter st n)"
      by (cases "Line_objects_filter st n") auto
    then show ?thesis by (auto simp: Line_objects_filter_def)
  qed
  then show ?thesis
    by (auto simp: dupe_list_def Line_objects_filter_def)
qed

lemma new_Line_sel:
  "line_pk (new_Line k nm u) = k"
  "line_name (new_Line k nm u) = nm"
  "linestring_2229 (new_Line k nm u) = u"
  by (simp_all add: new_Line_def)

text \<open>
  Where the consolidation goes through. On a line table with proper primary keys, when the
  union aggregate succeeds on every duplicated name with a value the field takes (a
  multi-part line, or none), \<^verbatim>\<open>fix_line_dupes\<close> returns, and afterwards every name that was
  held by more than one row is held by exactly one row: a new row, whose key no original
  row had, whose \<^verbatim>\<open>linestring_2229\<close> is the union of that field over the original rows of
  the name; no original row of such a name is left; and the row of a name held by exactly one
  row is as it was.
\<close>

lemma fix_line_dupes_consolidates_accepted:
  assumes ok: "Line_keys_ok st"
    and union_ok: "\<forall>n \<in> set (dupe_list collate st).
           \<exists>u. unionagg (map linestring_2229 (Line_objects_filter st n)) = Inr u
              \<and> MultiLineStringField_accepts u"
  shows "\<exists>st'. fix_line_dupes unionagg collate st = Inr st'
     \<and> (\<forall>n. 1 < length (Line_objects_filter st n) \<longrightarrow>
          (\<exists>this_obj. Line_objects_filter st' n = [this_obj]
             \<and> unionagg (map linestring_2229 (Line_objects_filter st n)) =
                 Inr (linestring_2229 this_obj)
             \<and> line_pk this_obj \<notin> line_pk ` set (Line_objects st)
             \<and> (\<forall>l \<in> set (Line_objects_filter st n).
                   line_pk l \<notin> line_pk ` set (Line_objects st'))))
     \<and> (\<forall>n. length (Line_objects_filter st n) = 1 \<longrightarrow>
          Line_objects_filter st' n = Line_objects_filter st n)"
proof -
  let ?ds = "dupe_list collate st"
  have pre: "\<forall>m \<in> set ?ds. Line_objects_filter st m \<noteq> []
          \<and> (\<exists>u. unionagg (map linestring_2229 (Line_objects_filter st m)) = Inr u
                 \<and> MultiLineStringField_accepts u)"
    using union_ok by (auto simp: set_dupe_list)
  from dupes_loop_consolidates [OF ok distinct_dupe_list pre] obtain st' where
    run: "fix_line_dupes_loop unionagg ?ds st = Inr st'"
    and frame: "\<forall>m. m \<notin> set ?ds \<longrightarrow>
                  Line_objects_filter st' m = Line_objects_filter st m"
    and merged: "\<forall>m \<in> set ?ds. \<exists>k u. Line_next_id st \<le> k
            \<and> unionagg (map linestring_2229 (Line_objects_filter st m)) = Inr u
            \<and> Line_objects_filter st' m = [new_Line k m u]"
    by blast
  have below: "line_pk l < Line_next_id st" if "l \<in> set (Line_objects st)" for l
    using Line_keys_okD(2) [OF ok that] .
  have inj: "inj_on line_pk (set (Line_objects st))"
    using Line_keys_okD(1) [OF ok] by (simp add: distinct_map)
  have gone: "line_pk l \<notin> line_pk ` set (Line_objects st')"
    if n: "n \<in> set ?ds" and l: "l \<in> set (Line_objects_filter st n)" for n l
  proof
    from l have l1: "l \<in> set (Line_objects st)" and l2: "line_name l = n"
      by (auto simp: Line_objects_filter_def)
    assume "line_pk l \<in> line_pk ` set (Line_objects st')"
    then obtain r where r: "r \<in> set (Line_objects st')" and pk: "line_pk r = line_pk l"
      by auto
    from r have rf: "r \<in> set (Line_objects_filter st' (line_name r))"
      by (simp add: Line_objects_filter_def)
    show False
    proof (cases "line_name r \<in> set ?ds")
      case True
      with merged obtain k u where "Line_next_id st \<le> k"
        and "Line_objects_filter st' (line_name r) = [new_Line k (line_name r) u]"
        by blast
      with rf have "r = new_Line k (line_name r) u" by simp
      then have "line_pk r = k" by (metis new_Line_sel(1))
      with \<open>Line_next_id st \<le> k\<close> pk below [OF l1] show False by simp
    next
      case False
      with frame rf have "r \<in> set (Line_objects_filter st (line_name r))" by simp
      then have "r \<in> set (Line_objects st)" by (simp add: Line_objects_filter_def)
      with inj l1 pk have "r = l" by (auto dest: inj_onD)
      with False l2 n show False by simp
    qed
  qed
  have dup: "\<exists>this_obj. Line_objects_filter st' n = [this_obj]
             \<and> unionagg (map linestring_2229 (Line_objects_filter st n)) =
                 Inr (linestring_2229 this_obj)
             \<and> line_pk this_obj \<notin> line_pk ` set (Line_objects st)
             \<and> (\<forall>l \<in> set (Line_objects_filter st n).
                   line_pk l \<notin> line_pk ` set (Line_objects st'))"
    if "1 < length (Line_objects_filter st n)" for n
  proof -
    from that have n: "n \<in> set ?ds" by (simp add: set_dupe_list)
    with merged obtain k u where k: "Line_next_id st \<le> k"
      and u: "unionagg (map linestring_2229 (Line_objects_filter st n)) = Inr u"
      and f: "Line_objects_filter st' n = [new_Line k n u]"
      by blast
    have "line_pk (new_Line k n u) \<notin> line_pk ` set (Line_objects st)"
      using below k by (fastforce simp: new_Line_def)
    moreover have "linestring_2229 (new_Line k n u) = u" by (simp add: new_Line_def)
    ultimately show ?thesis using u f gone [OF n] by auto
  qed
  have single: "Line_objects_filter st' n = Line_objects_filter st n"
    if "length (Line_objects_filter st n) = 1" for n
  proof -
    from that have "n \<notin> set ?ds" by (simp add: set_dupe_list)
    with frame show ?thesis by simp
  qed
  from run dup single show ?thesis
    unfolding fix_line_dupes_def by blast
qed

text \<open>
  Claim C2. The claim is that after \<^verbatim>\<open>fix_line_dupes\<close> every name shared by several rows is
  held by one row carrying the union of their geometries. The code misses the case of a
  union that is a single line, which \<^verbatim>\<open>set_simple_linestrings\<close> wraps into a multi-part
  shell and \<^verbatim>\<open>fix_line_dupes\<close> does not. Here two fragments of the Red line have the same
  geometry, their union is a \<open>LineString\<close>, the field refuses it, and
  \<^verbatim>\<open>fix_line_dupes\<close> ends with \<open>TypeError\<close>: the two rows are still there and no row
  carries the union.
\<close>
theorem fix_line_dupes_single_line_union:
  "Line_keys_ok (example_store example_lines_identical)
   \<and> dupe_list example_collate (example_store example_lines_identical) = [''Red'']
   \<and> example_unionagg (map linestring_2229
        (Line_objects_filter (example_store example_lines_identical) ''Red'')) =
        Inr (Some (LineString [0, 1]))
   \<and> fix_line_dupes example_unionagg example_collate (example_store example_lines_identical) =
        Inl (TypeError, example_store example_lines_identical)
   \<and> length (Line_objects_filter (example_store example_lines_identical) ''Red'') = 2"
  by (simp add: Line_keys_ok_def fix_line_dupes_def dupe_list_def fix_line_dupes_body_def
      Line_objects_filter_def Line_objects_create_def MultiLineStringField_accepts_def
      example_unionagg_def example_collate_def example_lines_identical_def
      example_store_def new_Line_def less_eq_char_def less_char_def)

text \<open>
  Claim C6, as amended. Nothing catches what the union aggregate raises: when it raises for a
  duplicated name, \<^verbatim>\<open>fix_line_dupes\<close> ends with that exception. The names before it
  in the order of the loop, whatever the collation, whose unions the field took, have been
  consolidated; the rows of the failing name, and of every name after it, are all still
  there, none deleted and none created.
\<close>
theorem fix_line_dupes_union_failure:
  assumes ok: "Line_keys_ok st"
    and split: "dupe_list collate st = pre @ n # post"
    and before: "\<forall>m \<in> set pre.
           \<exists>u. unionagg (map linestring_2229 (Line_objects_filter st m)) = Inr u
              \<and> MultiLineStringField_accepts u"
    and fails: "unionagg (map linestring_2229 (Line_objects_filter st n)) = Inl e"
  shows "\<exists>st'. fix_line_dupes unionagg collate st = Inl (e, st')
     \<and> (\<forall>m \<in> set pre. \<exists>this_obj. Line_objects_filter st' m = [this_obj]
            \<and> unionagg (map linestring_2229 (Line_objects_filter st m)) =
                Inr (linestring_2229 this_obj))
     \<and> (\<forall>m. m \<notin> set pre \<longrightarrow> Line_objects_filter st' m = Line_objects_filter st m)"
proof -
  from distinct_dupe_list [of collate st] split
  have dpre: "distinct pre" and npre: "n \<notin> set pre"
    by auto
  have sub: "set pre \<subseteq> set (dupe_list collate st)" using split by auto
  have pre: "\<forall>m \<in> set pre. Line_objects_filter st m \<noteq> []
          \<and> (\<exists>u. unionagg (map linestring_2229 (Line_objects_filter st m)) = Inr u
                 \<and> MultiLineStringField_accepts u)"
  proof
    fix m
    assume m: "m \<in> set pre"
    with sub have "m \<in> set (dupe_list collate st)" by blast
    then have "1 < length (Line_objects_filter st m)" by (simp add: set_dupe_list)
    then have "Line_objects_filter st m \<noteq> []" by auto
    with before m show "Line_objects_filter st m \<noteq> []
          \<and> (\<exists>u. unionagg (map linestring_2229 (Line_objects_filter st m)) = Inr u
                 \<and> MultiLineStringField_accepts u)"
      by blast
  qed
  from dupes_loop_consolidates [OF ok dpre pre] obtain st1 where
    run: "fix_line_dupes_loop unionagg pre st = Inr st1"
    and frame: "\<forall>m. m \<notin> set pre \<longrightarrow> Line_objects_filter st1 m = Line_objects_filter st m"
    and merged: "\<forall>m \<in> set pre. \<exists>k u. Line_next_id st \<le> k
            \<and> unionagg (map linestring_2229 (Line_objects_filter st m)) = Inr u
            \<and> Line_objects_filter st1 m = [new_Line k m u]"
    by blast
  from frame npre fails
  have "unionagg (map linestring_2229 (Line_objects_filter st1 n)) = Inl e" by simp
  then have "fix_line_dupes_body unionagg st1 n = Inl (e, st1)" by (rule dupes_body_raises)
  with run have r: "fix_line_dupes unionagg collate st = Inl (e, st1)"
    by (simp add: fix_line_dupes_def split dupes_loop_append)
  have m: "\<exists>this_obj. Line_objects_filter st1 m = [this_obj]
            \<and> unionagg (map linestring_2229 (Line_objects_filter st m)) =
                Inr (linestring_2229 this_obj)" if "m \<in> set pre" for m
  proof -
    from merged that obtain k u where
      "unionagg (map linestring_2229 (Line_objects_filter st m)) = Inr u"
      "Line_objects_filter st1 m = [new_Line k m u]"
      by blast
    moreover have "linestring_2229 (new_Line k m u) = u" by (simp add: new_Line_def)
    ultimately show ?thesis by auto
  qed
  from r m frame show ?thesis by blast
qed

theorem fix_line_dupes_union_failure_witness:
  "Line_keys_ok (example_store example_lines_bad_Red)
   \<and> dupe_list example_collate (example_store example_lines_bad_Red) = [''Gold''] @ ''Red'' # []
   \<and> example_unionagg (map linestring_2229
        (Line_objects_filter (example_store example_lines_bad_Red) ''Gold'')) =
        Inr (Some (MultiLineString [[5, 6], [6, 7]]))
   \<and> MultiLineStringField_accepts (Some (MultiLineString [[5, 6], [6, 7 :: int]]))
   \<and> example_unionagg (map linestring_2229
        (Line_objects_filter (example_store example_lines_bad_Red) ''Red'')) = Inl DatabaseError
   \<and> (\<exists>st'. fix_line_dupes example_unionagg example_collate
               (example_store example_lines_bad_Red) = Inl (DatabaseError, st')
        \<and> (\<exists>this_obj. Line_objects_filter st' ''Gold'' = [this_obj]
              \<and> linestring_2229 this_obj = Some (MultiLineString [[5, 6], [6, 7]]))
        \<and> Line_objects_filter st' ''Red'' =
            [new_Line 1 ''Red'' (Some (MultiLineString [[0, 1]])),
             new_Line 3 ''Red'' (Some (Point 1)),
             new_Line 6 ''Red'' (Some (MultiLineString [[2, 3]]))])"
proof -
  let ?st = "example_store example_lines_bad_Red"
  have h1: "Line_keys_ok ?st"
    by (simp add: Line_keys_ok_def example_store_def example_lines_bad_Red_def
        example_lines_def new_Line_def)
  have d: "dupe_list example_collate ?st = [''Gold''] @ ''Red'' # []"
    by (simp add: dupe_list_def example_collate_def example_store_def example_lines_bad_Red_def
        example_lines_def new_Line_def less_eq_char_def less_char_def)
  have g: "example_unionagg (map linestring_2229 (Line_objects_filter ?st ''Gold'')) =
        Inr (Some (MultiLineString [[5, 6], [6, 7]]))"
    by (simp add: example_unionagg_def Line_objects_filter_def example_store_def
        example_lines_bad_Red_def example_lines_def new_Line_def)
  have a: "MultiLineStringField_accepts (Some (MultiLineString [[5, 6], [6, 7 :: int]]))"
    by (simp add: MultiLineStringField_accepts_def)
  have r: "example_unionagg (map linestring_2229 (Line_objects_filter ?st ''Red'')) =
        Inl DatabaseError"
    by (simp add: example_unionagg_def Line_objects_filter_def example_store_def
        example_lines_bad_Red_def example_lines_def new_Line_def)
  have h3: "\<forall>m \<in> set [''Gold''].
           \<exists>u. example_unionagg (map linestring_2229 (Line_objects_filter ?st m)) = Inr u
              \<and> MultiLineStringField_accepts u"
    using g a by simp
  have red: "Line_objects_filter ?st ''Red'' =
      [new_Line 1 ''Red'' (Some (MultiLineString [[0, 1]])),
       new_Line 3 ''Red'' (Some (Point 1)),
       new_Line 6 ''Red'' (Some (MultiLineString [[2, 3]]))]"
    by (simp add: Line_objects_filter_def example_store_def example_lines_bad_Red_def
        example_lines_def new_Line_def)
  from fix_line_dupes_union_failure [where unionagg = example_unionagg
      and collate = example_collate, OF h1 d h3 r] obtain st' where
    run: "fix_line_dupes example_unionagg example_collate ?st = Inl (DatabaseError, st')"
    and m: "\<forall>m \<in> set [''Gold'']. \<exists>this_obj. Line_objects_filter st' m = [this_obj]
            \<and> example_unionagg (map linestring_2229 (Line_objects_filter ?st m)) =
                Inr (linestring_2229 this_obj)"
    and f: "\<forall>m. m \<notin> set [''Gold''] \<longrightarrow> Line_objects_filter st' m = Line_objects_filter ?st m"
    by blast
  from m g obtain this_obj where "Line_objects_filter st' ''Gold'' = [this_obj]"
    and "linestring_2229 this_obj = Some (MultiLineString [[5, 6], [6, 7]])"
    by auto
  moreover from f red have "Line_objects_filter st' ''Red'' =
      [new_Line 1 ''Red'' (Some (MultiLineString [[0, 1]])),
       new_Line 3 ''Red'' (Some (Point 1)),
       new_Line 6 ''Red'' (Some (MultiLineString [[2, 3]]))]"
    by simp
  ultimately show ?thesis using h1 d g a r run by blast
qed

text \<open>
  Claim C6 as stated fails: here the union raises for the Gold line and would succeed for the
  Red line, the Gold line comes first in the order of the names, and \<^verbatim>\<open>fix_line_dupes\<close>
  ends with the exception and the table as it was, the three fragments of the Red line not
  consolidated.
\<close>

theorem fix_line_dupes_union_failure_counterexample:
  "dupe_list example_collate (example_store example_lines_bad_Gold) = [''Gold'', ''Red'']
   \<and> example_unionagg (map linestring_2229
        (Line_objects_filter (example_store example_lines_bad_Gold) ''Gold'')) = Inl DatabaseError
   \<and> example_unionagg (map linestring_2229
        (Line_objects_filter (example_store example_lines_bad_Gold) ''Red'')) =
        Inr (Some (MultiLineString [[0, 1], [1, 2], [2, 3]]))
   \<and> fix_line_dupes example_unionagg example_collate (example_store example_lines_bad_Gold) =
        Inl (DatabaseError, example_store example_lines_bad_Gold)
   \<and> length (Line_objects_filter (example_store example_lines_bad_Gold) ''Red'') = 3"
  by (simp add: fix_line_dupes_def dupe_list_def fix_line_dupes_body_def Line_objects_filter_def
      example_unionagg_def example_collate_def example_lines_bad_Gold_def
      example_store_def example_lines_def new_Line_def less_eq_char_def less_char_def)

section \<open>Rollup of stops into stations\<close>

lemma add_crosswalk_line_effect:
  assumes "add_crosswalk_line st stop v = Inr st1"
  shows "\<exists>Ls. st1 = st\<lparr>Stop_lines := (Stop_lines st)(stop_pk stop := Ls)\<rparr>"
proof (cases "bool_str v")
  case False
  with assms have "st1 = st" by (simp add: add_crosswalk_line_def)
  then have "st1 = st\<lparr>Stop_lines := (Stop_lines st)(stop_pk stop := Stop_lines st (stop_pk stop))\<rparr>"
    by simp
  then show ?thesis by blast
next
  case True
  with assms show ?thesis
    by (auto simp: add_crosswalk_line_def bool_str_def split: option.splits sum.splits)
qed

lemma get_or_create_effect:
  assumes "Station_objects_get_or_create st nm sl = Inr (t, st1)"
  shows "Stop_objects st1 = Stop_objects st" and "Stop_lines st1 = Stop_lines st"
    and "Station_lines st1 = Station_lines st" and "Line_objects st1 = Line_objects st"
    and "t \<in> set (Station_objects st1)"
    and "set (Station_objects st) \<subseteq> set (Station_objects st1)"
  using assms
  by (auto simp: Station_objects_get_or_create_def Let_def
      split: option.splits list.splits if_splits dest: filter_eq_ConsD)

lemma stations_body_effect:
  assumes "stations_body stop_lookup slugify st x = Inr st'"
  shows "\<exists>x' t Ls.
      stop_pk x' = stop_pk x \<and> station x' = Some (station_pk t)
      \<and> t \<in> set (Station_objects st')
      \<and> set (Station_objects st) \<subseteq> set (Station_objects st')
      \<and> Stop_objects st' = map (\<lambda>s. if stop_pk s = stop_pk x then x' else s) (Stop_objects st)
      \<and> Stop_lines st' = (Stop_lines st)(stop_pk x := Ls)
      \<and> Station_lines st' =
          (Station_lines st)(station_pk t := Station_lines st (station_pk t) \<union> Ls)"
proof -
  from assms obtain row where row: "stop_lookup (str_int_option (stop_id x)) = Some row"
    by (auto simp: stations_body_def split: option.splits)
  let ?x2 = "x\<lparr>stop_name := row ''clean_station_name'',
      stop_slug := Some (slugify_filter slugify (row ''clean_station_name'') @ ''-'' @
                         str_int_option (stop_id x))\<rparr>"
  from assms row obtain st1 st2 t st3 where
    a1: "add_crosswalk_line st ?x2 (row ''Line1'') = Inr st1"
    and a2: "add_crosswalk_line st1 ?x2 (row ''Line2'') = Inr st2"
    and g: "Station_objects_get_or_create st2 (row ''clean_station_name'')
              (slugify_filter slugify (row ''clean_station_name'')) = Inr (t, st3)"
    and st': "st' = (save_Stop st3 (?x2\<lparr>station := Some (station_pk t)\<rparr>))
        \<lparr>Station_lines := (Station_lines (save_Stop st3 (?x2\<lparr>station := Some (station_pk t)\<rparr>)))
           (station_pk t :=
              Station_lines (save_Stop st3 (?x2\<lparr>station := Some (station_pk t)\<rparr>)) (station_pk t) \<union>
              Stop_lines (save_Stop st3 (?x2\<lparr>station := Some (station_pk t)\<rparr>))
                (stop_pk (?x2\<lparr>station := Some (station_pk t)\<rparr>)))\<rparr>"
    by (auto simp: stations_body_def Let_def split: sum.splits prod.splits)
  from add_crosswalk_line_effect [OF a1] obtain L1 where
    s1: "st1 = st\<lparr>Stop_lines := (Stop_lines st)(stop_pk x := L1)\<rparr>" by auto
  from add_crosswalk_line_effect [OF a2] obtain L2 where
    s2: "st2 = st1\<lparr>Stop_lines := (Stop_lines st1)(stop_pk x := L2)\<rparr>" by auto
  note e = get_or_create_effect [OF g]
  let ?x' = "?x2\<lparr>station := Some (station_pk t)\<rparr>"
  have "stop_pk ?x' = stop_pk x" "station ?x' = Some (station_pk t)" by simp_all
  moreover have "t \<in> set (Station_objects st')"
    using e(5) by (simp add: st' save_Stop_def)
  moreover have "set (Station_objects st) \<subseteq> set (Station_objects st')"
    using e(6) by (simp add: st' save_Stop_def s1 s2)
  moreover have "Stop_objects st' =
      map (\<lambda>s. if stop_pk s = stop_pk x then ?x' else s) (Stop_objects st)"
    using e(1) by (simp add: st' save_Stop_def s1 s2)
  moreover have "Stop_lines st' = (Stop_lines st)(stop_pk x := L2)"
    using e(2) by (simp add: st' save_Stop_def s1 s2)
  moreover have "Station_lines st' =
          (Station_lines st)(station_pk t := Station_lines st (station_pk t) \<union> L2)"
    using e(2,3) by (simp add: st' save_Stop_def s1 s2)
  ultimately show ?thesis by blast
qed

lemma set_map_replace:
  assumes "p \<in> stop_pk ` set rows"
  shows "set (map (\<lambda>s. if stop_pk s = p then x' else s) rows) =
         insert x' {s \<in> set rows. stop_pk s \<noteq> p}"
  using assms by (induction rows) auto

lemma rolled_up_step:
  assumes J: "rolled_up st P"
    and xP: "stop_pk x \<notin> P"
    and xin: "stop_pk x \<in> stop_pk ` set (Stop_objects st)"
    and x': "stop_pk x' = stop_pk x" "station x' = Some (station_pk t)"
    and t: "t \<in> set (Station_objects st')"
    and sub: "set (Station_objects st) \<subseteq> set (Station_objects st')"
    and rows: "Stop_objects st' = map (\<lambda>s. if stop_pk s = stop_pk x then x' else s) (Stop_objects st)"
    and sl: "Stop_lines st' = (Stop_lines st)(stop_pk x := Ls)"
    and tl: "Station_lines st' =
          (Station_lines st)(station_pk t := Station_lines st (station_pk t) \<union> Ls)"
  shows "rolled_up st' (insert (stop_pk x) P)"
proof -
  have rows': "set (Stop_objects st') = insert x' {s \<in> set (Stop_objects st). stop_pk s \<noteq> stop_pk x}"
    unfolding rows using xin by (rule set_map_replace)
  from J have J1: "Station_lines st k =
            (\<Union>s \<in> {s \<in> set (Stop_objects st). stop_pk s \<in> P \<and> station s = Some k}.
                Stop_lines st (stop_pk s))" for k
    by (simp add: rolled_up_def)
  from J have J2: "\<exists>t \<in> set (Station_objects st). station s = Some (station_pk t)"
    if "s \<in> set (Stop_objects st)" "stop_pk s \<in> P" for s
    using that by (auto simp: rolled_up_def)
  have lines: "Station_lines st' k =
            (\<Union>s \<in> {s \<in> set (Stop_objects st'). stop_pk s \<in> insert (stop_pk x) P
                          \<and> station s = Some k}.
                Stop_lines st' (stop_pk s))" for k
  proof (rule set_eqI)
    fix a
    have "a \<in> Station_lines st' k \<longleftrightarrow>
          (k = station_pk t \<and> a \<in> Ls) \<or>
          (\<exists>s \<in> set (Stop_objects st). stop_pk s \<in> P \<and> station s = Some k
              \<and> a \<in> Stop_lines st (stop_pk s))"
      by (auto simp: tl J1)
    also have "\<dots> \<longleftrightarrow>
          (\<exists>s \<in> insert x' {s \<in> set (Stop_objects st). stop_pk s \<noteq> stop_pk x}.
              stop_pk s \<in> insert (stop_pk x) P \<and> station s = Some k
              \<and> a \<in> Stop_lines st' (stop_pk s))"
      using x' xP by (auto simp: sl)
    finally show "a \<in> Station_lines st' k \<longleftrightarrow>
          a \<in> (\<Union>s \<in> {s \<in> set (Stop_objects st'). stop_pk s \<in> insert (stop_pk x) P
                          \<and> station s = Some k}.
                Stop_lines st' (stop_pk s))"
      unfolding rows' by blast
  qed
  have refs: "\<exists>t \<in> set (Station_objects st'). station s = Some (station_pk t)"
    if s: "s \<in> set (Stop_objects st')" "stop_pk s \<in> insert (stop_pk x) P" for s
  proof (cases "s = x'")
    case True
    with x' t show ?thesis by auto
  next
    case False
    with s rows' have "s \<in> set (Stop_objects st)" "stop_pk s \<in> P" by auto
    from J2 [OF this] sub show ?thesis by auto
  qed
  from lines refs show ?thesis unfolding rolled_up_def by blast
qed

lemma stations_loop_rolled_up:
  assumes "stations_loop stop_lookup slugify todo st = Inr st'"
    and "rolled_up st P"
    and "distinct (map stop_pk todo)"
    and "stop_pk ` set todo \<inter> P = {}"
    and "stop_pk ` set todo \<subseteq> stop_pk ` set (Stop_objects st)"
  shows "rolled_up st' (stop_pk ` set todo \<union> P)
       \<and> map stop_pk (Stop_objects st') = map stop_pk (Stop_objects st)"
  using assms
proof (induction todo arbitrary: st P)
  case Nil
  then show ?case by simp
next
  case (Cons x xs)
  from Cons.prems(1) obtain st1 where
    b: "stations_body stop_lookup slugify st x = Inr st1"
    and l: "stations_loop stop_lookup slugify xs st1 = Inr st'"
    by (auto split: sum.splits)
  from stations_body_effect [OF b] obtain x' t Ls where
    e: "stop_pk x' = stop_pk x" "station x' = Some (station_pk t)"
      "t \<in> set (Station_objects st1)"
      "set (Station_objects st) \<subseteq> set (Station_objects st1)"
      "Stop_objects st1 = map (\<lambda>s. if stop_pk s = stop_pk x then x' else s) (Stop_objects st)"
      "Stop_lines st1 = (Stop_lines st)(stop_pk x := Ls)"
      "Station_lines st1 =
          (Station_lines st)(station_pk t := Station_lines st (station_pk t) \<union> Ls)"
    by blast
  from Cons.prems(4) have xP: "stop_pk x \<notin> P" by auto
  from Cons.prems(5) have xin: "stop_pk x \<in> stop_pk ` set (Stop_objects st)" by auto
  have J1: "rolled_up st1 (insert (stop_pk x) P)"
    using rolled_up_step [OF Cons.prems(2) xP xin e] .
  have pks: "map stop_pk (Stop_objects st1) = map stop_pk (Stop_objects st)"
    unfolding e(5) using e(1) by (induction "Stop_objects st") auto
  from Cons.prems(3) have d: "distinct (map stop_pk xs)" and xxs: "stop_pk x \<notin> stop_pk ` set xs"
    by auto
  from Cons.prems(4) xxs have disj: "stop_pk ` set xs \<inter> insert (stop_pk x) P = {}" by auto
  have "set (map stop_pk (Stop_objects st1)) = set (map stop_pk (Stop_objects st))"
    using pks by simp
  with Cons.prems(5) have sub: "stop_pk ` set xs \<subseteq> stop_pk ` set (Stop_objects st1)"
    by auto
  from Cons.IH [OF l J1 d disj sub] pks show ?case
    by (simp add: Un_commute insert_commute)
qed

lemma resolves_cong:
  assumes "Line_objects st1 = Line_objects st"
  shows "line_resolves st1 v = line_resolves st v"
    and "crosswalk_resolves stop_lookup st1 y = crosswalk_resolves stop_lookup st y"
proof -
  from assms have f: "Line_objects_filter st1 nm = Line_objects_filter st nm" for nm
    by (simp add: Line_objects_filter_def)
  then show l: "line_resolves st1 v = line_resolves st v" for v
    by (simp add: line_resolves_def split: option.splits)
  then show "crosswalk_resolves stop_lookup st1 y = crosswalk_resolves stop_lookup st y"
    by (simp add: crosswalk_resolves_def split: option.splits)
qed

lemma add_crosswalk_line_total:
  assumes "line_resolves st v"
  shows "\<exists>st1. add_crosswalk_line st stop v = Inr st1"
proof (cases v)
  case None
  then show ?thesis by (simp add: add_crosswalk_line_def bool_str_def)
next
  case (Some nm)
  show ?thesis
  proof (cases "nm = []")
    case True
    with Some show ?thesis by (simp add: add_crosswalk_line_def bool_str_def)
  next
    case False
    with assms Some have "length (Line_objects_filter st nm) = 1"
      by (simp add: line_resolves_def)
    then obtain l where "Line_objects_filter st nm = [l]"
      by (cases "Line_objects_filter st nm") auto
    with Some False show ?thesis
      by (simp add: add_crosswalk_line_def bool_str_def Line_objects_get_def)
  qed
qed

lemma add_crosswalk_line_Line_objects:
  assumes "add_crosswalk_line st stop v = Inr st1"
  shows "Line_objects st1 = Line_objects st" and "Station_objects st1 = Station_objects st"
    and "Station_next_id st1 = Station_next_id st"
  using add_crosswalk_line_effect [OF assms] by auto

lemma get_or_create_total:
  assumes "\<forall>n sl. length (filter (\<lambda>s. station_name s = n \<and> station_slug s = Some sl)
                             (Station_objects st)) \<le> 1"
  shows "\<exists>t st1. Station_objects_get_or_create st (Some nm) sl = Inr (t, st1)
      \<and> (\<forall>n sl. length (filter (\<lambda>s. station_name s = n \<and> station_slug s = Some sl)
                             (Station_objects st1)) \<le> 1)"
proof (cases "filter (\<lambda>s. station_name s = nm \<and> station_slug s = Some sl) (Station_objects st)")
  case Nil
  let ?obj = "\<lparr>station_pk = Station_next_id st, station_name = nm, station_slug = Some sl\<rparr>"
  let ?st1 = "st\<lparr>Station_objects := Station_objects st @ [?obj],
                  Station_next_id := Suc (Station_next_id st)\<rparr>"
  have r: "Station_objects_get_or_create st (Some nm) sl = Inr (?obj, ?st1)"
    using Nil by (simp add: Station_objects_get_or_create_def Let_def)
  have "length (filter (\<lambda>s. station_name s = n \<and> station_slug s = Some sl')
                  (Station_objects ?st1)) \<le> 1" for n sl'
  proof (cases "n = nm \<and> sl' = sl")
    case True
    with Nil show ?thesis by simp
  next
    case False
    with assms show ?thesis by auto
  qed
  with r show ?thesis by blast
next
  case (Cons s ss)
  from assms have "length (filter (\<lambda>s. station_name s = nm \<and> station_slug s = Some sl)
                             (Station_objects st)) \<le> 1" by blast
  with Cons have "ss = []" by simp
  with Cons have "Station_objects_get_or_create st (Some nm) sl = Inr (s, st)"
    by (simp add: Station_objects_get_or_create_def)
  with assms show ?thesis by blast
qed

lemma stations_body_total:
  assumes r: "crosswalk_resolves stop_lookup st x"
    and u: "\<forall>n sl. length (filter (\<lambda>s. station_name s = n \<and> station_slug s = Some sl)
                             (Station_objects st)) \<le> 1"
  shows "\<exists>st'. stations_body stop_lookup slugify st x = Inr st'
      \<and> Line_objects st' = Line_objects st
      \<and> (\<forall>n sl. length (filter (\<lambda>s. station_name s = n \<and> station_slug s = Some sl)
                             (Station_objects st')) \<le> 1)"
proof -
  from r obtain row nm where row: "stop_lookup (str_int_option (stop_id x)) = Some row"
    and nm: "row ''clean_station_name'' = Some nm"
    and l1: "line_resolves st (row ''Line1'')" and l2: "line_resolves st (row ''Line2'')"
    by (auto simp: crosswalk_resolves_def split: option.splits)
  let ?x2 = "x\<lparr>stop_name := row ''clean_station_name'',
      stop_slug := Some (slugify_filter slugify (row ''clean_station_name'') @ ''-'' @
                         str_int_option (stop_id x))\<rparr>"
  from add_crosswalk_line_total [OF l1] obtain st1 where
    a1: "add_crosswalk_line st ?x2 (row ''Line1'') = Inr st1" by blast
  note f1 = add_crosswalk_line_Line_objects [OF a1]
  from l2 resolves_cong(1) [OF f1(1)] have "line_resolves st1 (row ''Line2'')"
    by simp
  from add_crosswalk_line_total [OF this] obtain st2 where
    a2: "add_crosswalk_line st1 ?x2 (row ''Line2'') = Inr st2" by blast
  note f2 = add_crosswalk_line_Line_objects [OF a2]
  from u f1(2) f2(2) have u2: "\<forall>n sl. length (filter (\<lambda>s. station_name s = n \<and> station_slug s = Some sl)
                             (Station_objects st2)) \<le> 1" by simp
  from get_or_create_total [OF u2, of nm "slugify_filter slugify (Some nm)"] obtain t st3 where
    g: "Station_objects_get_or_create st2 (Some nm) (slugify_filter slugify (Some nm)) = Inr (t, st3)"
    and u3: "\<forall>n sl. length (filter (\<lambda>s. station_name s = n \<and> station_slug s = Some sl)
                             (Station_objects st3)) \<le> 1"
    by blast
  note e = get_or_create_effect [OF g]
  from row nm a1 a2 g obtain st' where
    b: "stations_body stop_lookup slugify st x = Inr st'"
    and s: "Station_objects st' = Station_objects st3" "Line_objects st' = Line_objects st3"
    by (simp add: stations_body_def Let_def save_Stop_def)
  from s e(4) f1(1) f2(1) u3 b show ?thesis by auto
qed

lemma stations_loop_total:
  assumes "\<forall>x \<in> set todo. crosswalk_resolves stop_lookup st x"
    and "\<forall>n sl. length (filter (\<lambda>s. station_name s = n \<and> station_slug s = Some sl)
                             (Station_objects st)) \<le> 1"
  shows "\<exists>st'. stations_loop stop_lookup slugify todo st = Inr st'"
  using assms
proof (induction todo arbitrary: st)
  case Nil
  then show ?case by simp
next
  case (Cons x xs)
  from Cons.prems(1) have rx: "crosswalk_resolves stop_lookup st x" by simp
  from stations_body_total [OF rx Cons.prems(2), of slugify] obtain st1 where
    b: "stations_body stop_lookup slugify st x = Inr st1"
    and lo: "Line_objects st1 = Line_objects st"
    and u1: "\<forall>n sl. length (filter (\<lambda>s. station_name s = n \<and> station_slug s = Some sl)
                             (Station_objects st1)) \<le> 1"
    by blast
  from lo have "crosswalk_resolves stop_lookup st1 y = crosswalk_resolves stop_lookup st y" for y
    by (rule resolves_cong(2))
  with Cons.prems(1) have "\<forall>y \<in> set xs. crosswalk_resolves stop_lookup st1 y" by simp
  from Cons.IH [OF this u1] b show ?case by simp
qed

lemma stations_body_frame:
  shows "s \<in> set (Stop_objects st) \<Longrightarrow> stop_pk s \<noteq> stop_pk x \<Longrightarrow>
           s \<in> set (Stop_objects (outcome_store (stations_body stop_lookup slugify st x)))"
    and "p \<noteq> stop_pk x \<Longrightarrow>
           Stop_lines (outcome_store (stations_body stop_lookup slugify st x)) p = Stop_lines st p"
proof -
  let ?r = "stations_body stop_lookup slugify st x"
  have "Stop_lines (outcome_store ?r) p = Stop_lines st p
      \<and> (\<forall>s. s \<in> set (Stop_objects st) \<and> stop_pk s \<noteq> stop_pk x \<longrightarrow>
             s \<in> set (Stop_objects (outcome_store ?r)))" if "p \<noteq> stop_pk x" for p
  proof (cases ?r)
    case (Inr st')
    from stations_body_effect [OF Inr] that show ?thesis
      by (auto simp: outcome_store_def Inr)
  next
    case (Inl a)
    then obtain e se where a: "?r = Inl (e, se)" by (cases a) auto
    then have "se = st \<or> (\<exists>Ls. se = st\<lparr>Stop_lines := (Stop_lines st)(stop_pk x := Ls)\<rparr>)"
      by (auto simp: stations_body_def Let_def split: option.splits sum.splits prod.splits
          dest!: add_crosswalk_line_effect)
    with that show ?thesis by (auto simp: outcome_store_def a)
  qed
  then show "s \<in> set (Stop_objects st) \<Longrightarrow> stop_pk s \<noteq> stop_pk x \<Longrightarrow>
           s \<in> set (Stop_objects (outcome_store ?r))"
    and "p \<noteq> stop_pk x \<Longrightarrow> Stop_lines (outcome_store ?r) p = Stop_lines st p"
    by blast+
qed

lemma stations_loop_frame:
  assumes "s \<in> set (Stop_objects st)" and "stop_pk s \<notin> stop_pk ` set todo"
  shows "s \<in> set (Stop_objects (outcome_store (stations_loop stop_lookup slugify todo st)))
       \<and> Stop_lines (outcome_store (stations_loop stop_lookup slugify todo st)) (stop_pk s) =
           Stop_lines st (stop_pk s)"
  using assms
proof (induction todo arbitrary: st)
  case Nil
  then show ?case by (simp add: outcome_store_def)
next
  case (Cons x xs)
  from Cons.prems(2) have ne: "stop_pk s \<noteq> stop_pk x" and nxs: "stop_pk s \<notin> stop_pk ` set xs"
    by auto
  note f = stations_body_frame [where st = st and x = x and stop_lookup = stop_lookup
      and slugify = slugify]
  show ?case
  proof (cases "stations_body stop_lookup slugify st x")
    case (Inl a)
    with f(1) [OF Cons.prems(1) ne] f(2) [OF ne] show ?thesis by simp
  next
    case (Inr st1)
    with f(1) [OF Cons.prems(1) ne] f(2) [OF ne]
    have "s \<in> set (Stop_objects st1)" "Stop_lines st1 (stop_pk s) = Stop_lines st (stop_pk s)"
      by (simp_all add: outcome_store_def)
    with Cons.IH [OF this(1) nxs] Inr show ?thesis by simp
  qed
qed

lemma stations_loop_append:
  "stations_loop stop_lookup slugify (xs @ ys) st =
     (case stations_loop stop_lookup slugify xs st of
        Inl e \<Rightarrow> Inl e
      | Inr st1 \<Rightarrow> stations_loop stop_lookup slugify ys st1)"
  by (induction xs arbitrary: st) (simp_all split: sum.splits)

lemma str_int_examples:
  "str_int 100 = ''100''" "str_int 101 = ''101''" "str_int 102 = ''102''" "str_int 999 = ''999''"
  by (simp_all add: str_int_def str_nat.simps digit_char_def)


lemma set_Stop_objects_all: "set (Stop_objects_all st) = set (Stop_objects st)"
  by (auto simp: Stop_objects_all_def)

lemma distinct_Stop_objects_all:
  assumes "distinct (map stop_pk (Stop_objects st))"
  shows "distinct (map stop_pk (Stop_objects_all st))"
proof -
  from assms have d: "distinct (Stop_objects st)" and i: "inj_on stop_pk (set (Stop_objects st))"
    by (simp_all add: distinct_map)
  from d have "distinct (Stop_objects_all st)"
    by (auto simp: Stop_objects_all_def)
  with i show ?thesis
    by (simp add: distinct_map set_Stop_objects_all)
qed

text \<open>
  Claim C4. The rollup starts, as in a reload, with no station and no station line, on stops
  with distinct keys. When every stop has a crosswalk entry that names a station and lines
  that exist once, \<^verbatim>\<open>stations\<close> returns; and whenever it returns, every stop refers to a
  station of the station table, and the line set of every station is the union of the line
  sets of the stops that refer to it.
\<close>
theorem stations_rollup_complete:
  assumes empty: "Station_objects st = []" "\<forall>k. Station_lines st k = {}"
    and keys: "distinct (map stop_pk (Stop_objects st))"
  shows "(list_all (crosswalk_resolves stop_lookup st) (Stop_objects st) \<longrightarrow>
            (\<exists>st'. stations stop_lookup slugify st = Inr st'))
       \<and> (\<forall>st'. stations stop_lookup slugify st = Inr st' \<longrightarrow>
            (\<forall>s \<in> set (Stop_objects st').
                \<exists>t \<in> set (Station_objects st'). station s = Some (station_pk t))
          \<and> (\<forall>t \<in> set (Station_objects st').
                Station_lines st' (station_pk t) =
                  (\<Union>s \<in> {s \<in> set (Stop_objects st'). station s = Some (station_pk t)}.
                      Stop_lines st' (stop_pk s)))
          \<and> map stop_pk (Stop_objects st') = map stop_pk (Stop_objects st))"
proof (intro conjI impI allI)
  assume "list_all (crosswalk_resolves stop_lookup st) (Stop_objects st)"
  then have r: "\<forall>x \<in> set (Stop_objects st). crosswalk_resolves stop_lookup st x"
    by (simp add: list_all_iff)
  have u: "\<forall>n sl. length (filter (\<lambda>s. station_name s = n \<and> station_slug s = Some sl)
                             (Station_objects st)) \<le> 1"
    by (simp add: empty(1))
  from r have r': "\<forall>x \<in> set (Stop_objects_all st). crosswalk_resolves stop_lookup st x"
    by (simp add: set_Stop_objects_all)
  from stations_loop_total [OF r' u, of slugify]
  show "\<exists>st'. stations stop_lookup slugify st = Inr st'"
    by (simp add: stations_def)
next
  fix st'
  assume "stations stop_lookup slugify st = Inr st'"
  then have run: "stations_loop stop_lookup slugify (Stop_objects_all st) st = Inr st'"
    by (simp add: stations_def)
  have J0: "rolled_up st {}"
    using empty(2) by (simp add: rolled_up_def)
  from stations_loop_rolled_up [OF run J0 distinct_Stop_objects_all [OF keys]] have
    J: "rolled_up st' (stop_pk ` set (Stop_objects st))"
    and pks: "map stop_pk (Stop_objects st') = map stop_pk (Stop_objects st)"
    by (simp_all add: set_Stop_objects_all)
  from pks have "set (map stop_pk (Stop_objects st')) = set (map stop_pk (Stop_objects st))"
    by simp
  then have all: "stop_pk s \<in> stop_pk ` set (Stop_objects st)" if "s \<in> set (Stop_objects st')" for s
    using that by auto
  from J all show "\<forall>s \<in> set (Stop_objects st').
                \<exists>t \<in> set (Station_objects st'). station s = Some (station_pk t)"
    by (simp add: rolled_up_def)
  have "{s \<in> set (Stop_objects st'). stop_pk s \<in> stop_pk ` set (Stop_objects st) \<and> station s = Some k}
      = {s \<in> set (Stop_objects st'). station s = Some k}" for k
    using all by blast
  with J have "Station_lines st' k =
      (\<Union>s \<in> {s \<in> set (Stop_objects st'). station s = Some k}. Stop_lines st' (stop_pk s))" for k
    by (simp add: rolled_up_def)
  then show "\<forall>t \<in> set (Station_objects st').
                Station_lines st' (station_pk t) =
                  (\<Union>s \<in> {s \<in> set (Stop_objects st'). station s = Some (station_pk t)}.
                      Stop_lines st' (stop_pk s))"
    by blast
  from pks show "map stop_pk (Stop_objects st') = map stop_pk (Stop_objects st)" .
qed

theorem stations_rollup_complete_witness:
  "Station_objects (example_rollup_store example_stops) = []
   \<and> (\<forall>k. Station_lines (example_rollup_store example_stops) k = {})
   \<and> distinct (map stop_pk (Stop_objects (example_rollup_store example_stops)))
   \<and> list_all (crosswalk_resolves example_stop_lookup (example_rollup_store example_stops))
        (Stop_objects (example_rollup_store example_stops))
   \<and> (\<exists>st'. stations example_stop_lookup example_slugify (example_rollup_store example_stops) = Inr st'
        \<and> list_all (\<lambda>s. station s \<noteq> None) (Stop_objects st')
        \<and> map station (Stop_objects st') = [Some 1, Some 1, Some 2]
        \<and> map station_pk (Station_objects st') = [1, 2]
        \<and> Stop_lines st' 1 = {7, 8} \<and> Stop_lines st' 2 = {7} \<and> Stop_lines st' 3 = {8}
        \<and> Station_lines st' 1 = {7, 8} \<and> Station_lines st' 2 = {8})"
proof -
  let ?st = "example_rollup_store example_stops"
  have h1: "Station_objects ?st = []" by (simp add: example_rollup_store_def)
  have h2: "\<forall>k. Station_lines ?st k = {}" by (simp add: example_rollup_store_def)
  have h3: "distinct (map stop_pk (Stop_objects ?st))"
    by (simp add: example_rollup_store_def example_stops_def example_raw_stop_def)
  have h4: "list_all (crosswalk_resolves example_stop_lookup ?st) (Stop_objects ?st)"
    by (simp add: crosswalk_resolves_def line_resolves_def Line_objects_filter_def
        example_stop_lookup_def example_rollup_store_def example_stops_def example_raw_stop_def
        str_int_option_def str_int_examples new_Line_def)
  note t = stations_rollup_complete [OF h1 h2 h3, of example_stop_lookup example_slugify]
  from t h4 obtain st' where run: "stations example_stop_lookup example_slugify ?st = Inr st'"
    by blast
  with t have "\<forall>s \<in> set (Stop_objects st').
      \<exists>t \<in> set (Station_objects st'). station s = Some (station_pk t)"
    by blast
  then have a: "list_all (\<lambda>s. station s \<noteq> None) (Stop_objects st')"
    by (auto simp: list_all_iff)
  have "\<exists>st'. stations example_stop_lookup example_slugify ?st = Inr st'
    \<and> map station (Stop_objects st') = [Some 1, Some 1, Some 2]
    \<and> map station_pk (Station_objects st') = [1, 2]
    \<and> Stop_lines st' 1 = {7, 8} \<and> Stop_lines st' 2 = {7} \<and> Stop_lines st' 3 = {8}
    \<and> Station_lines st' 1 = {7, 8} \<and> Station_lines st' 2 = {8}"
    by (simp add: stations_def Stop_objects_all_def stop_id_value_def
      stations_body_def example_stop_lookup_def example_slugify_def
      example_rollup_store_def example_stops_def example_raw_stop_def str_int_option_def
      str_int_examples add_crosswalk_line_def bool_str_def Line_objects_get_def
      Line_objects_filter_def new_Line_def Station_objects_get_or_create_def save_Stop_def
      slugify_filter_def Let_def insert_commute)
  with run have b: "map station (Stop_objects st') = [Some 1, Some 1, Some 2]
    \<and> map station_pk (Station_objects st') = [1, 2]
    \<and> Stop_lines st' 1 = {7, 8} \<and> Stop_lines st' 2 = {7} \<and> Stop_lines st' 3 = {8}
    \<and> Station_lines st' 1 = {7, 8} \<and> Station_lines st' 2 = {8}"
    by simp
  from h1 h2 h3 h4 run a b show ?thesis by simp
qed

text \<open>
  Claim C5. For a stop whose \<^verbatim>\<open>stop_id\<close> has no entry in the crosswalk lookup, the loop
  body raises \<open>KeyError\<close> (the specification's \<open>MissingCrosswalkEntry\<close>) and leaves
  the database as it found it; so \<^verbatim>\<open>stations\<close> on a table holding that stop never
  returns, the row of the stop and its line set are what they were, and when the stops before
  it in the order of the loop were rolled up the exception is that \<open>KeyError\<close> and the
  database is the one they left: no station is created for the stop.
\<close>
theorem stations_missing_crosswalk_entry:
  assumes keys: "distinct (map stop_pk (Stop_objects st))"
    and split: "Stop_objects_all st = pre @ stop # post"
    and missing: "stop_lookup (str_int_option (stop_id stop)) = None"
  shows "(\<forall>st1. stations_body stop_lookup slugify st1 stop = Inl (KeyError, st1))
       \<and> (\<exists>e st'. stations stop_lookup slugify st = Inl (e, st')
             \<and> stop \<in> set (Stop_objects st')
             \<and> Stop_lines st' (stop_pk stop) = Stop_lines st (stop_pk stop)
             \<and> (\<forall>st1. stations_loop stop_lookup slugify pre st = Inr st1 \<longrightarrow>
                    e = KeyError \<and> st' = st1))"
proof
  show body: "\<forall>st1. stations_body stop_lookup slugify st1 stop = Inl (KeyError, st1)"
    using missing by (simp add: stations_body_def)
  have "stop \<in> set (Stop_objects_all st)" using split by simp
  then have sin: "stop \<in> set (Stop_objects st)" by (simp add: set_Stop_objects_all)
  from distinct_Stop_objects_all [OF keys] split
  have fresh: "stop_pk stop \<notin> stop_pk ` set pre" by auto
  note f = stations_loop_frame [OF sin fresh, of stop_lookup slugify]
  have run: "stations stop_lookup slugify st =
      (case stations_loop stop_lookup slugify pre st of
         Inl e \<Rightarrow> Inl e
       | Inr st1 \<Rightarrow> Inl (KeyError, st1))"
    using body by (simp add: stations_def split stations_loop_append split: sum.splits)
  show "\<exists>e st'. stations stop_lookup slugify st = Inl (e, st')
             \<and> stop \<in> set (Stop_objects st')
             \<and> Stop_lines st' (stop_pk stop) = Stop_lines st (stop_pk stop)
             \<and> (\<forall>st1. stations_loop stop_lookup slugify pre st = Inr st1 \<longrightarrow>
                    e = KeyError \<and> st' = st1)"
  proof (cases "stations_loop stop_lookup slugify pre st")
    case (Inl a)
    then obtain e se where a: "stations_loop stop_lookup slugify pre st = Inl (e, se)"
      by (cases a) auto
    with f have "stop \<in> set (Stop_objects se)"
      "Stop_lines se (stop_pk stop) = Stop_lines st (stop_pk stop)"
      by (simp_all add: outcome_store_def)
    with run a show ?thesis by simp
  next
    case (Inr st1)
    with f have "stop \<in> set (Stop_objects st1)"
      "Stop_lines st1 (stop_pk stop) = Stop_lines st (stop_pk stop)"
      by (simp_all add: outcome_store_def)
    with run Inr show ?thesis by simp
  qed
qed

theorem stations_missing_crosswalk_entry_witness:
  "distinct (map stop_pk (Stop_objects (example_rollup_store example_stops_missing)))
   \<and> Stop_objects_all (example_rollup_store example_stops_missing) =
       [example_raw_stop 1 100, example_raw_stop 3 102] @ example_raw_stop 2 999 # []
   \<and> example_stop_lookup (str_int_option (stop_id (example_raw_stop 2 999))) = None
   \<and> (\<exists>st'. stations example_stop_lookup example_slugify (example_rollup_store example_stops_missing)
          = Inl (KeyError, st')
        \<and> example_raw_stop 2 999 \<in> set (Stop_objects st')
        \<and> Stop_lines st' 2 = {}
        \<and> map station_name (Station_objects st') = [''Union Station'', ''Civic Center''])"
proof -
  let ?st = "example_rollup_store example_stops_missing"
  have h1: "distinct (map stop_pk (Stop_objects ?st))"
    by (simp add: example_rollup_store_def example_stops_missing_def example_raw_stop_def)
  have h2: "Stop_objects_all ?st =
       [example_raw_stop 1 100, example_raw_stop 3 102] @ example_raw_stop 2 999 # []"
    by (simp add: Stop_objects_all_def stop_id_value_def example_rollup_store_def
        example_stops_missing_def example_raw_stop_def)
  have h3: "example_stop_lookup (str_int_option (stop_id (example_raw_stop 2 999))) = None"
    by (simp add: example_stop_lookup_def example_raw_stop_def str_int_option_def str_int_examples)
  have pre: "\<exists>st1. stations_loop example_stop_lookup example_slugify
              [example_raw_stop 1 100, example_raw_stop 3 102] ?st = Inr st1
      \<and> map station_name (Station_objects st1) = [''Union Station'', ''Civic Center'']"
    by (simp add: stations_body_def example_stop_lookup_def example_slugify_def
      example_rollup_store_def example_stops_missing_def example_raw_stop_def str_int_option_def
      str_int_examples add_crosswalk_line_def bool_str_def Line_objects_get_def
      Line_objects_filter_def new_Line_def Station_objects_get_or_create_def save_Stop_def
      slugify_filter_def Let_def)
  then obtain st1 where
    p1: "stations_loop example_stop_lookup example_slugify
           [example_raw_stop 1 100, example_raw_stop 3 102] ?st = Inr st1"
    and p2: "map station_name (Station_objects st1) = [''Union Station'', ''Civic Center'']"
    by (elim exE conjE)
  from stations_missing_crosswalk_entry [where stop_lookup = example_stop_lookup
      and slugify = example_slugify, OF h1 h2 h3] obtain e st' where
    r: "stations example_stop_lookup example_slugify ?st = Inl (e, st')"
    and s: "example_raw_stop 2 999 \<in> set (Stop_objects st')"
    and l: "Stop_lines st' (stop_pk (example_raw_stop 2 999)) =
            Stop_lines ?st (stop_pk (example_raw_stop 2 999))"
    and k: "\<forall>st1. stations_loop example_stop_lookup example_slugify
              [example_raw_stop 1 100, example_raw_stop 3 102] ?st
              = Inr st1 \<longrightarrow> e = KeyError \<and> st' = st1"
    by blast
  from k p1 have ke: "e = KeyError" and st1: "st' = st1" by auto
  from l have l': "Stop_lines st' 2 = {}"
    by (simp add: example_raw_stop_def example_rollup_store_def)
  from h1 h2 h3 r s l' p2 ke st1 show ?thesis by simp
qed

end
